theory Spec2Isabelle
  imports Complex_Main "HOL-Library.Char_ord" "HOL-Library.List_Lexorder"
begin

section \<open>Exceptions\<close>

text \<open>
  Python exceptions are values. The constructors name where an exception comes from:
  the operating system and the image decoder (\<open>os.path.getsize\<close>, \<open>Image.open\<close>),
  the relational engine, the object detector, the face library, and the interpreter's
  own errors. \<open>str_of_error\<close> is \<open>str(e)\<close>: the message the environment gave, and a
  fixed text for each of the interpreter's own errors.
\<close>

datatype error =
    OSError string
  | DatabaseError string
  | IntegrityError
  | DetectorError string
  | FaceLibraryError string
  | KeyError
  | IndexError
  | ZeroDivisionError
  | ValueError
  | StopIteration

fun str_of_error :: "error \<Rightarrow> string" where
  "str_of_error (OSError m) = m"
| "str_of_error (DatabaseError m) = m"
| "str_of_error IntegrityError = ''foreign key constraint fails''"
| "str_of_error (DetectorError m) = m"
| "str_of_error (FaceLibraryError m) = m"
| "str_of_error KeyError = ''KeyError''"
| "str_of_error IndexError = ''list index out of range''"
| "str_of_error ZeroDivisionError = ''division by zero''"
| "str_of_error ValueError = ''ValueError''"
| "str_of_error StopIteration = ''''"

section \<open>Python dictionaries\<close>

text \<open>
  A \<open>dict\<close> keeps its keys in insertion order, and \<open>items()\<close> iterates in that order:
  an association list in which assigning to a present key keeps its position and
  assigning to a new key appends.
\<close>

type_synonym ('k, 'v) dict = "('k \<times> 'v) list"

definition dict_contains :: "'k \<Rightarrow> ('k, 'v) dict \<Rightarrow> bool" where
  "dict_contains k d = (map_of d k \<noteq> None)"

fun dict_setitem :: "'k \<Rightarrow> 'v \<Rightarrow> ('k, 'v) dict \<Rightarrow> ('k, 'v) dict" where
  "dict_setitem k v [] = [(k, v)]"
| "dict_setitem k v ((k', v') # d) =
     (if k' = k then (k, v) # d else (k', v') # dict_setitem k v d)"

definition dict_getitem :: "('k, 'v) dict \<Rightarrow> 'k \<Rightarrow> error + 'v" where
  "dict_getitem d k = (case map_of d k of None \<Rightarrow> Inl KeyError | Some v \<Rightarrow> Inr v)"

section \<open>Detection events and their aggregation\<close>

text \<open>
  One detection as \<open>process_single_image\<close> builds it:
  \<^verbatim>\<open>{'class_name': ..., 'class_id': ..., 'confidence': ...}\<close>.
  Python floats are modelled as reals.
\<close>

record detection =
  class_name :: string
  class_id :: int
  confidence :: real

text \<open>
  The first loop of \<open>add_object_detections\<close>:
  \<^verbatim>\<open>
  for detection in detections:
      class_name = detection['class_name']
      if class_name not in class_counts:
          class_counts[class_name] = 0
          class_confidences[class_name] = []
      class_counts[class_name] += 1
      class_confidences[class_name].append(confidence)
  \<close>
\<close>

fun group_detections ::
  "detection list \<Rightarrow> (string, int) dict \<times> (string, real list) dict \<Rightarrow>
   error + ((string, int) dict \<times> (string, real list) dict)" where
  "group_detections [] acc = Inr acc"
| "group_detections (d # ds) (class_counts, class_confidences) =
     (let cn = class_name d;
          absent = \<not> dict_contains cn class_counts;
          class_counts1 = (if absent then dict_setitem cn 0 class_counts else class_counts);
          class_confidences1 =
            (if absent then dict_setitem cn [] class_confidences else class_confidences)
      in case dict_getitem class_counts1 cn of
           Inl e \<Rightarrow> Inl e
         | Inr c \<Rightarrow>
             (case dict_getitem class_confidences1 cn of
                Inl e \<Rightarrow> Inl e
              | Inr cs \<Rightarrow>
                  group_detections ds
                    (dict_setitem cn (c + 1) class_counts1,
                     dict_setitem cn (cs @ [confidence d]) class_confidences1)))"

text \<open>\<open>sum(xs)\<close> adds from the left starting at 0; \<open>max(xs)\<close> raises on an empty list.\<close>

definition py_sum :: "real list \<Rightarrow> real" where
  "py_sum xs = fold (\<lambda>x acc. acc + x) xs 0"

definition py_max :: "real list \<Rightarrow> error + real" where
  "py_max xs = (case xs of [] \<Rightarrow> Inl ValueError | x # rest \<Rightarrow> Inr (fold max rest x))"

text \<open>\<open>next(d['class_id'] for d in detections if d['class_name'] == class_name)\<close>\<close>

definition first_class_id :: "detection list \<Rightarrow> string \<Rightarrow> error + int" where
  "first_class_id detections cn =
     (case find (\<lambda>d. class_name d = cn) detections of
        None \<Rightarrow> Inl StopIteration
      | Some d \<Rightarrow> Inr (class_id d))"

text \<open>
  A row of \<open>object_summary\<close>, as the values bound to the INSERT statement. The
  surrogate key \<open>id\<close> of the table is never read by the program and is left out; the
  engine's rounding to the column type DECIMAL(5,4) is not modelled.
\<close>

record object_summary_row =
  os_photo_id :: nat
  os_class_name :: string
  os_class_id :: int
  os_total_count :: int
  os_avg_confidence :: real
  os_max_confidence :: real

text \<open>
  The summary loop:
  \<^verbatim>\<open>
  for class_name, count in class_counts.items():
      confidences = class_confidences[class_name]
      avg_confidence = sum(confidences) / len(confidences)
      max_confidence = max(confidences)
      class_id = next(d['class_id'] for d in detections if d['class_name'] == class_name)
      INSERT INTO object_summary (photo_id, class_name, class_id, total_count, ...)
  \<close>
\<close>

fun summary_rows ::
  "nat \<Rightarrow> detection list \<Rightarrow> (string, int) dict \<Rightarrow> (string, real list) dict \<Rightarrow>
   error + object_summary_row list" where
  "summary_rows photo_id detections [] class_confidences = Inr []"
| "summary_rows photo_id detections ((cn, count) # items) class_confidences =
     (case dict_getitem class_confidences cn of
        Inl e \<Rightarrow> Inl e
      | Inr confidences \<Rightarrow>
          if length confidences = 0 then Inl ZeroDivisionError
          else
            (case py_max confidences of
               Inl e \<Rightarrow> Inl e
             | Inr max_confidence \<Rightarrow>
                 (case first_class_id detections cn of
                    Inl e \<Rightarrow> Inl e
                  | Inr cid \<Rightarrow>
                      (case summary_rows photo_id detections items class_confidences of
                         Inl e \<Rightarrow> Inl e
                       | Inr rows \<Rightarrow>
                           Inr (\<lparr>os_photo_id = photo_id, os_class_name = cn,
                                 os_class_id = cid, os_total_count = count,
                                 os_avg_confidence =
                                   py_sum confidences / real (length confidences),
                                 os_max_confidence = max_confidence\<rparr> # rows)))))"

section \<open>The catalog\<close>

text \<open>
  The relational state: one list of rows per table, in insertion order. Only the
  tables and columns the program reads or writes in the operations below are kept;
  surrogate keys other than \<open>photos.id\<close> are never read and are left out. A WHERE
  clause comparing a column with a parameter is modelled as equality.
\<close>

record photo_row =
  ph_id :: nat
  ph_file_path :: string
  ph_file_name :: string
  ph_file_size :: nat
  ph_width :: nat
  ph_height :: nat
  ph_format :: "string option"
  ph_created_at :: nat
  ph_processed_at :: "nat option"
  ph_yolo_model_used :: "string option"

text \<open>The dictionary \<open>extract_exif_data\<close> returns when it is not empty.\<close>

record exif_fields =
  camera_make :: "string option"
  camera_model :: "string option"
  software :: "string option"
  date_time_original :: "string option"
  exposure_time :: "real option"
  f_number :: "real option"
  iso_speed :: "int option"
  focal_length :: "real option"
  gps_latitude :: "real option"
  gps_longitude :: "real option"
  gps_altitude :: "real option"

record exif_row =
  ex_photo_id :: nat
  ex_fields :: exif_fields

text \<open>
  One face as \<open>detect_faces_in_image\<close> builds it. An encoding is a vector of reals;
  \<open>pickle.dumps\<close> and \<open>pickle.loads\<close> are inverse to each other and are modelled as the
  identity.
\<close>

record face_detection =
  fd_face_encoding :: "real list"
  fd_location_top :: int
  fd_location_right :: int
  fd_location_bottom :: int
  fd_location_left :: int
  fd_confidence :: real
  fd_recognized_name :: "string option"
  fd_recognized_confidence :: "real option"

record face_summary_row =
  fs_photo_id :: nat
  fs_total_faces :: int
  fs_recognized_faces :: int
  fs_unrecognized_faces :: int

text \<open>
  Rows of \<open>object_detections\<close> and \<open>face_detections\<close> are pairs of the photo id and
  the inserted values. \<open>photos_auto_increment\<close> is the AUTO_INCREMENT counter of
  \<open>photos\<close>: the id the next inserted row gets (\<open>cursor.lastrowid\<close>).
\<close>

record db =
  photos :: "photo_row list"
  photos_auto_increment :: nat
  exif_data :: "exif_row list"
  object_detections :: "(nat \<times> detection) list"
  object_summary :: "object_summary_row list"
  face_detections :: "(nat \<times> face_detection) list"
  face_summary :: "face_summary_row list"

section \<open>The environment\<close>

text \<open>
  Everything outside the program: the file system, the image decoder, the detector, the
  face library, the clock, and the relational engine's failures. Each call that can
  raise returns \<open>error + result\<close>.

  \<open>getsize\<close> is \<open>os.path.getsize\<close>; \<open>image_open\<close> is \<open>Image.open\<close> with the size and the
  format it reads. \<open>getexif\<close> is \<open>Image.open(path)._getexif()\<close> with the tags the program
  reads; the numeric tags are given as \<open>_convert_rational\<close> and
  \<open>_convert_gps_to_decimal\<close> return them (floating-point conversions of decoder
  values). \<open>yolo\<close> is the call \<open>self.model(image_path, conf=...)\<close>: a list of results,
  each with its boxes or \<open>None\<close>, a box with its class index and its confidence;
  \<open>model_names\<close> is the dictionary \<open>self.model.names\<close>. \<open>load_image_file\<close>,
  \<open>face_locations\<close> and \<open>face_encodings\<close> are the functions of the face library, and
  \<open>distance\<close> is the distance of two encodings its \<open>face_distance\<close> computes. \<open>glob\<close> is
  \<open>glob.glob(pattern, recursive=True)\<close>. \<open>now\<close> is the reading of the clock
  (\<open>datetime.now()\<close>, CURRENT_TIMESTAMP); one reading serves a whole run, since the
  program only ever tests a timestamp for being set.

  \<open>db_fault\<close> says for each catalog operation whether a statement of it raises (a lost
  connection, a violated constraint of a column that is not modelled). Every operation
  commits at its end and rolls back in its handler, so a fault leaves the catalog as the
  operation found it.
\<close>

record image_info =
  img_width :: nat
  img_height :: nat
  img_format :: "string option"

record raw_exif =
  tag_Make :: "string option"
  tag_Model :: "string option"
  tag_Software :: "string option"
  tag_DateTimeOriginal :: "string option"
  tag_ExposureTime :: "real option"
  tag_FNumber :: "real option"
  tag_ISOSpeedRatings :: "int option"
  tag_FocalLength :: "real option"
  tag_GPSLatitude :: "real option"
  tag_GPSLongitude :: "real option"
  tag_GPSAltitude :: "real option"

record box =
  cls :: int
  conf :: real

type_synonym image = "nat list"
type_synonym location = "int \<times> int \<times> int \<times> int"

datatype db_call =
    Call_add_photo string
  | Call_add_object_detections nat
  | Call_add_face_detections nat
  | Call_is_image_already_processed string

record env =
  getsize :: "string \<Rightarrow> error + nat"
  image_open :: "string \<Rightarrow> error + image_info"
  getexif :: "string \<Rightarrow> error + raw_exif option"
  yolo :: "string \<Rightarrow> real \<Rightarrow> error + box list option list"
  model_names :: "int \<Rightarrow> string option"
  load_image_file :: "string \<Rightarrow> error + image"
  face_locations :: "image \<Rightarrow> error + location list"
  face_encodings :: "image \<Rightarrow> location list \<Rightarrow> error + real list list"
  distance :: "real list \<Rightarrow> real list \<Rightarrow> real"
  glob :: "string \<Rightarrow> string list"
  now :: nat
  db_fault :: "db_call \<Rightarrow> error option"

section \<open>Catalog operations\<close>

text \<open>
  \<open>add_object_detections\<close>: group, delete the photo's rows of \<open>object_detections\<close> and
  \<open>object_summary\<close>, insert the detections and the summary rows, set \<open>processed_at\<close>,
  commit. Both tables have a foreign key to \<open>photos.id\<close>, so an insert for a photo id
  that is not in \<open>photos\<close> raises. Any exception rolls back and is raised again.
\<close>

definition add_object_detections ::
  "env \<Rightarrow> nat \<Rightarrow> detection list \<Rightarrow> db \<Rightarrow> (error + unit) \<times> db" where
  "add_object_detections e photo_id detections d =
     (case group_detections detections ([], []) of
        Inl err \<Rightarrow> (Inl err, d)
      | Inr (class_counts, class_confidences) \<Rightarrow>
          (case db_fault e (Call_add_object_detections photo_id) of
             Some err \<Rightarrow> (Inl err, d)
           | None \<Rightarrow>
               if detections \<noteq> [] \<and> photo_id \<notin> ph_id ` set (photos d)
               then (Inl IntegrityError, d)
               else
                 (case summary_rows photo_id detections class_counts class_confidences of
                    Inl err \<Rightarrow> (Inl err, d)
                  | Inr rows \<Rightarrow>
                      (Inr (),
                       d\<lparr>object_detections :=
                            filter (\<lambda>r. fst r \<noteq> photo_id) (object_detections d)
                            @ map (Pair photo_id) detections,
                          object_summary :=
                            filter (\<lambda>r. os_photo_id r \<noteq> photo_id) (object_summary d)
                            @ rows,
                          photos :=
                            map (\<lambda>p. if ph_id p = photo_id
                                      then p\<lparr>ph_processed_at := Some (now e)\<rparr> else p)
                              (photos d)\<rparr>))))"

text \<open>
  \<open>d.get('recognized_name')\<close> in a condition: true for a name that is neither \<open>None\<close>
  nor the empty string.
\<close>

definition truthy_name :: "string option \<Rightarrow> bool" where
  "truthy_name n = (case n of None \<Rightarrow> False | Some s \<Rightarrow> s \<noteq> [])"

text \<open>
  \<open>add_face_detections\<close>: delete the photo's rows of \<open>face_detections\<close> and
  \<open>face_summary\<close>, insert the faces and the one summary row, commit. The summary row
  is inserted whatever the list, so a photo id that is not in \<open>photos\<close> always raises.
  The operation does not touch \<open>processed_at\<close>.
\<close>

definition add_face_detections ::
  "env \<Rightarrow> nat \<Rightarrow> face_detection list \<Rightarrow> db \<Rightarrow> (error + unit) \<times> db" where
  "add_face_detections e photo_id fds d =
     (case db_fault e (Call_add_face_detections photo_id) of
        Some err \<Rightarrow> (Inl err, d)
      | None \<Rightarrow>
          if photo_id \<notin> ph_id ` set (photos d) then (Inl IntegrityError, d)
          else
            (let total_faces = int (length fds);
                 recognized_faces =
                   int (length (filter (\<lambda>f. truthy_name (fd_recognized_name f)) fds));
                 unrecognized_faces = total_faces - recognized_faces
             in (Inr (),
                 d\<lparr>face_detections :=
                      filter (\<lambda>r. fst r \<noteq> photo_id) (face_detections d)
                      @ map (Pair photo_id) fds,
                    face_summary :=
                      filter (\<lambda>r. fs_photo_id r \<noteq> photo_id) (face_summary d)
                      @ [\<lparr>fs_photo_id = photo_id, fs_total_faces = total_faces,
                          fs_recognized_faces = recognized_faces,
                          fs_unrecognized_faces = unrecognized_faces\<rparr>]\<rparr>)))"

section \<open>Strings\<close>

text \<open>
  Strings are lists of characters with code points below 256. \<open>py_isspace\<close> is
  \<open>str.isspace\<close> on one character, which is also the class \<open>\s\<close> of \<open>re\<close> and the set
  \<open>str.strip()\<close> removes; \<open>py_isdigit\<close> is the class \<open>\d\<close>.
\<close>

definition py_isspace :: "char \<Rightarrow> bool" where
  "py_isspace c =
     (let n = (of_char c :: nat)
      in (9 \<le> n \<and> n \<le> 13) \<or> (28 \<le> n \<and> n \<le> 32) \<or> n = 133 \<or> n = 160)"

definition py_isdigit :: "char \<Rightarrow> bool" where
  "py_isdigit c = (let n = (of_char c :: nat) in 48 \<le> n \<and> n \<le> 57)"

definition digit_value :: "char \<Rightarrow> nat" where
  "digit_value c = of_char c - 48"

definition strip :: "string \<Rightarrow> string" where
  "strip s = rev (dropWhile py_isspace (rev (dropWhile py_isspace s)))"

fun startswith :: "string \<Rightarrow> string \<Rightarrow> bool" where
  "startswith s [] = True"
| "startswith [] (p # ps) = False"
| "startswith (c # cs) (p # ps) = (c = p \<and> startswith cs ps)"

text \<open>\<open>sub in s\<close>\<close>

fun py_in :: "string \<Rightarrow> string \<Rightarrow> bool" where
  "py_in sub [] = (sub = [])"
| "py_in sub (c # cs) = (startswith (c # cs) sub \<or> py_in sub cs)"

text \<open>\<open>s.split(sep)\<close> for a separator of one character: empty fields are kept.\<close>

fun split_on :: "char \<Rightarrow> string \<Rightarrow> string list" where
  "split_on sep [] = [[]]"
| "split_on sep (c # cs) =
     (if c = sep then [] # split_on sep cs
      else (case split_on sep cs of
              [] \<Rightarrow> [[c]]
            | w # ws \<Rightarrow> (c # w) # ws))"

text \<open>\<open>str.upper\<close> on the letters a to z.\<close>

definition upper_char :: "char \<Rightarrow> char" where
  "upper_char c =
     (let n = (of_char c :: nat) in if 97 \<le> n \<and> n \<le> 122 then char_of (n - 32) else c)"

definition upper :: "string \<Rightarrow> string" where
  "upper s = map upper_char s"

section \<open>Timestamps\<close>

record datetime =
  dt_year :: nat
  dt_month :: nat
  dt_day :: nat
  dt_hour :: nat
  dt_minute :: nat
  dt_second :: nat

text \<open>
  \<open>datetime.strptime(s, '%Y:%m:%d %H:%M:%S')\<close> of the standard library. The format
  becomes the regular expression
  \<^verbatim>\<open>(\d\d\d\d):(1[0-2]|0[1-9]|[1-9]):(3[0-1]|[1-2]\d|0[1-9]|[1-9]| [1-9])\s+\<close>
  \<^verbatim>\<open>(2[0-3]|[0-1]\d|\d):([0-5]\d|\d):(6[0-1]|[0-5]\d|\d)\<close>,
  matched at the start of the string; the first match in the order of the alternatives
  is taken, and text left after it is an error. A parser here returns every way to
  match a prefix, the value read and the rest of the string, in that order.
\<close>

type_synonym 'a parser = "string \<Rightarrow> ('a \<times> string) list"

definition then_parse :: "'a parser \<Rightarrow> ('a \<Rightarrow> 'b parser) \<Rightarrow> 'b parser" where
  "then_parse p f s = concat (map (\<lambda>(a, rest). f a rest) (p s))"

definition literal :: "char \<Rightarrow> unit parser" where
  "literal c s = (case s of [] \<Rightarrow> [] | x # rest \<Rightarrow> if x = c then [((), rest)] else [])"

text \<open>Two characters \<open>ab\<close> with \<open>a\<close> a digit from \<open>lo1\<close> to \<open>hi1\<close> and \<open>b\<close> one from \<open>lo2\<close> to \<open>hi2\<close>.\<close>

definition two_digits :: "nat \<Rightarrow> nat \<Rightarrow> nat \<Rightarrow> nat \<Rightarrow> nat parser" where
  "two_digits lo1 hi1 lo2 hi2 s =
     (case s of
        a # b # rest \<Rightarrow>
          if py_isdigit a \<and> py_isdigit b \<and>
             lo1 \<le> digit_value a \<and> digit_value a \<le> hi1 \<and>
             lo2 \<le> digit_value b \<and> digit_value b \<le> hi2
          then [(10 * digit_value a + digit_value b, rest)] else []
      | _ \<Rightarrow> [])"

definition one_digit :: "nat \<Rightarrow> nat \<Rightarrow> nat parser" where
  "one_digit lo hi s =
     (case s of
        a # rest \<Rightarrow>
          if py_isdigit a \<and> lo \<le> digit_value a \<and> digit_value a \<le> hi
          then [(digit_value a, rest)] else []
      | _ \<Rightarrow> [])"

definition space_digit :: "nat parser" where
  "space_digit s =
     (case s of
        a # rest \<Rightarrow> if a = CHR '' '' then one_digit 1 9 rest else []
      | _ \<Rightarrow> [])"

definition alternatives :: "'a parser list \<Rightarrow> 'a parser" where
  "alternatives ps s = concat (map (\<lambda>p. p s) ps)"

definition directive_Y :: "nat parser" where
  "directive_Y s =
     (case s of
        a # b # c # d # rest \<Rightarrow>
          if py_isdigit a \<and> py_isdigit b \<and> py_isdigit c \<and> py_isdigit d
          then [(1000 * digit_value a + 100 * digit_value b + 10 * digit_value c
                 + digit_value d, rest)]
          else []
      | _ \<Rightarrow> [])"

definition directive_m :: "nat parser" where
  "directive_m = alternatives [two_digits 1 1 0 2, two_digits 0 0 1 9, one_digit 1 9]"

definition directive_d :: "nat parser" where
  "directive_d =
     alternatives [two_digits 3 3 0 1, two_digits 1 2 0 9, two_digits 0 0 1 9,
                   one_digit 1 9, space_digit]"

definition directive_H :: "nat parser" where
  "directive_H = alternatives [two_digits 2 2 0 3, two_digits 0 1 0 9, one_digit 0 9]"

definition directive_M :: "nat parser" where
  "directive_M = alternatives [two_digits 0 5 0 9, one_digit 0 9]"

definition directive_S :: "nat parser" where
  "directive_S = alternatives [two_digits 6 6 0 1, two_digits 0 5 0 9, one_digit 0 9]"

text \<open>\<open>\s+\<close>: one or more white-space characters, the longest run first.\<close>

fun whitespace :: "unit parser" where
  "whitespace [] = []"
| "whitespace (c # cs) = (if py_isspace c then whitespace cs @ [((), cs)] else [])"

definition format_regex ::
  "(nat \<times> nat \<times> nat \<times> nat \<times> nat \<times> nat) parser" where
  "format_regex =
     then_parse directive_Y (\<lambda>Y. then_parse (literal CHR '':'') (\<lambda>_.
     then_parse directive_m (\<lambda>m. then_parse (literal CHR '':'') (\<lambda>_.
     then_parse directive_d (\<lambda>d. then_parse whitespace (\<lambda>_.
     then_parse directive_H (\<lambda>H. then_parse (literal CHR '':'') (\<lambda>_.
     then_parse directive_M (\<lambda>M. then_parse (literal CHR '':'') (\<lambda>_.
     then_parse directive_S (\<lambda>S. (\<lambda>rest. [((Y, m, d, H, M, S), rest)]))))))))))))"

definition is_leap :: "nat \<Rightarrow> bool" where
  "is_leap y = (y mod 4 = 0 \<and> (y mod 100 \<noteq> 0 \<or> y mod 400 = 0))"

definition days_in_month :: "nat \<Rightarrow> nat \<Rightarrow> nat" where
  "days_in_month y m =
     (if m = 2 then (if is_leap y then 29 else 28)
      else if m = 4 \<or> m = 6 \<or> m = 9 \<or> m = 11 then 30 else 31)"

text \<open>The constructor \<open>datetime(year, month, day, hour, minute, second)\<close>.\<close>

definition make_datetime ::
  "nat \<Rightarrow> nat \<Rightarrow> nat \<Rightarrow> nat \<Rightarrow> nat \<Rightarrow> nat \<Rightarrow> error + datetime" where
  "make_datetime y m d H M S =
     (if 1 \<le> y \<and> y \<le> 9999 \<and> 1 \<le> m \<and> m \<le> 12 \<and> 1 \<le> d \<and> d \<le> days_in_month y m \<and>
         H \<le> 23 \<and> M \<le> 59 \<and> S \<le> 59
      then Inr \<lparr>dt_year = y, dt_month = m, dt_day = d,
                dt_hour = H, dt_minute = M, dt_second = S\<rparr>
      else Inl ValueError)"

definition strptime :: "string \<Rightarrow> error + datetime" where
  "strptime s =
     (case format_regex s of
        [] \<Rightarrow> Inl ValueError
      | ((Y, m, d, H, M, S), rest) # _ \<Rightarrow>
          if rest \<noteq> [] then Inl ValueError else make_datetime Y m d H M S)"

definition datetime_key :: "datetime \<Rightarrow> nat list" where
  "datetime_key t = [dt_year t, dt_month t, dt_day t, dt_hour t, dt_minute t, dt_second t]"

fun key_le :: "nat list \<Rightarrow> nat list \<Rightarrow> bool" where
  "key_le [] ys = True"
| "key_le (x # xs) [] = False"
| "key_le (x # xs) (y # ys) = (x < y \<or> (x = y \<and> key_le xs ys))"

definition datetime_le :: "datetime \<Rightarrow> datetime \<Rightarrow> bool" where
  "datetime_le a b = key_le (datetime_key a) (datetime_key b)"

definition digit_char :: "nat \<Rightarrow> char" where
  "digit_char n = char_of (48 + n mod 10)"

definition pad2 :: "nat \<Rightarrow> string" where
  "pad2 n = [digit_char (n div 10), digit_char n]"

definition pad4 :: "nat \<Rightarrow> string" where
  "pad4 n = [digit_char (n div 1000), digit_char (n div 100), digit_char (n div 10),
             digit_char n]"

text \<open>\<open>isoformat()\<close> of a datetime without microseconds.\<close>

definition isoformat :: "datetime \<Rightarrow> string" where
  "isoformat t =
     pad4 (dt_year t) @ ''-'' @ pad2 (dt_month t) @ ''-'' @ pad2 (dt_day t) @ ''T'' @
     pad2 (dt_hour t) @ '':'' @ pad2 (dt_minute t) @ '':'' @ pad2 (dt_second t)"

text \<open>
  \<open>_validate_and_parse_datetime\<close>; \<open>None\<close> is Python's \<open>None\<close>.
  \<^verbatim>\<open>
  if not date_time_str or not isinstance(date_time_str, str): return None
  date_time_str = date_time_str.strip()
  if not date_time_str or date_time_str in ['0000:00:00 00:00:00', '0000:00:00', '']:
      return None
  if '0000' in date_time_str or ':00:00:00' in date_time_str:
      parts = date_time_str.split(' ')
      if len(parts) >= 2:
          date_part = parts[0]; time_part = parts[1]
          if date_part.startswith('0000') or time_part == '00:00:00': return None
  try:
      parsed_date = datetime.strptime(date_time_str, '%Y:%m:%d %H:%M:%S')
      min_date = datetime(1900, 1, 1); max_date = datetime(2100, 12, 31)
      if min_date <= parsed_date <= max_date: return parsed_date.isoformat()
      else: return None
  except ValueError as e: return None
  \<close>
\<close>

definition min_date :: datetime where
  "min_date = \<lparr>dt_year = 1900, dt_month = 1, dt_day = 1,
                dt_hour = 0, dt_minute = 0, dt_second = 0\<rparr>"

definition max_date :: datetime where
  "max_date = \<lparr>dt_year = 2100, dt_month = 12, dt_day = 31,
                dt_hour = 0, dt_minute = 0, dt_second = 0\<rparr>"

definition zeroed :: "string \<Rightarrow> bool" where
  "zeroed date_time_str =
     (if py_in ''0000'' date_time_str \<or> py_in '':00:00:00'' date_time_str
      then (case split_on CHR '' '' date_time_str of
              date_part # time_part # _ \<Rightarrow>
                startswith date_part ''0000'' \<or> time_part = ''00:00:00''
            | _ \<Rightarrow> False)
      else False)"

definition validate_and_parse_datetime :: "string \<Rightarrow> string option" where
  "validate_and_parse_datetime date_time_str0 =
     (if date_time_str0 = [] then None
      else
        (let date_time_str = strip date_time_str0
         in if date_time_str = [] \<or>
               date_time_str \<in> set [''0000:00:00 00:00:00'', ''0000:00:00'', []]
            then None
            else if zeroed date_time_str then None
            else
              (case strptime date_time_str of
                 Inl err \<Rightarrow> None
               | Inr parsed_date \<Rightarrow>
                   if datetime_le min_date parsed_date \<and> datetime_le parsed_date max_date
                   then Some (isoformat parsed_date)
                   else None)))"

section \<open>Adding a photo\<close>

text \<open>
  \<open>extract_exif_data\<close> returns a dictionary; \<open>None\<close> here is the empty dictionary \<open>{}\<close>
  (no EXIF block, or any exception while reading it). A dictionary that is not empty
  always has the keys \<open>camera_make\<close>, \<open>camera_model\<close> and \<open>software\<close>, so it is true in
  the condition \<open>if exif_data:\<close> whatever its values.
\<close>

definition extract_exif_data :: "env \<Rightarrow> string \<Rightarrow> exif_fields option" where
  "extract_exif_data e image_path =
     (case getexif e image_path of
        Inl err \<Rightarrow> None
      | Inr None \<Rightarrow> None
      | Inr (Some exif) \<Rightarrow>
          Some \<lparr>camera_make = tag_Make exif,
                camera_model = tag_Model exif,
                software = tag_Software exif,
                date_time_original =
                  (case tag_DateTimeOriginal exif of
                     None \<Rightarrow> None
                   | Some date_time \<Rightarrow>
                       if date_time = [] then None
                       else validate_and_parse_datetime date_time),
                exposure_time = tag_ExposureTime exif,
                f_number = tag_FNumber exif,
                iso_speed = tag_ISOSpeedRatings exif,
                focal_length = tag_FocalLength exif,
                gps_latitude = tag_GPSLatitude exif,
                gps_longitude = tag_GPSLongitude exif,
                gps_altitude = tag_GPSAltitude exif\<rparr>)"

text \<open>\<open>os.path.basename\<close>: what follows the last slash.\<close>

definition basename :: "string \<Rightarrow> string" where
  "basename p = rev (takeWhile (\<lambda>c. c \<noteq> CHR ''/'') (rev p))"

text \<open>
  \<open>add_photo\<close>:
  \<^verbatim>\<open>
  file_size = os.path.getsize(file_path)
  file_name = os.path.basename(file_path)
  with Image.open(file_path) as img: width, height = img.size; format_name = img.format
  cursor.execute('SELECT id FROM photos WHERE file_path = %s', (file_path,))
  existing = cursor.fetchone()
  if existing:
      UPDATE photos SET file_name, file_size, width, height, format, yolo_model_used
          WHERE file_path = %s
      photo_id = existing[0]
  else:
      INSERT INTO photos (file_path, file_name, file_size, width, height, format,
                          yolo_model_used)
      photo_id = cursor.lastrowid
  exif_data = self.extract_exif_data(file_path)
  if exif_data:
      # Delete existing EXIF data if updating
      DELETE FROM exif_data WHERE photo_id = %s
      INSERT INTO exif_data (photo_id, camera_make, ...)
  self.conn.commit()
  return photo_id
  \<close>
  with \<open>rollback\<close> and \<open>raise\<close> on any exception.
\<close>

definition add_photo ::
  "env \<Rightarrow> string \<Rightarrow> string option \<Rightarrow> db \<Rightarrow> (error + nat) \<times> db" where
  "add_photo e file_path yolo_model d =
     (case getsize e file_path of
        Inl err \<Rightarrow> (Inl err, d)
      | Inr file_size \<Rightarrow>
          (case image_open e file_path of
             Inl err \<Rightarrow> (Inl err, d)
           | Inr img \<Rightarrow>
               (case db_fault e (Call_add_photo file_path) of
                  Some err \<Rightarrow> (Inl err, d)
                | None \<Rightarrow>
                    (let file_name = basename file_path;
                         existing = find (\<lambda>p. ph_file_path p = file_path) (photos d);
                         photo_id =
                           (case existing of
                              Some p \<Rightarrow> ph_id p
                            | None \<Rightarrow> photos_auto_increment d);
                         d1 =
                           (case existing of
                              Some p \<Rightarrow>
                                d\<lparr>photos :=
                                    map (\<lambda>q. if ph_file_path q = file_path
                                             then q\<lparr>ph_file_name := file_name,
                                                    ph_file_size := file_size,
                                                    ph_width := img_width img,
                                                    ph_height := img_height img,
                                                    ph_format := img_format img,
                                                    ph_yolo_model_used := yolo_model\<rparr>
                                             else q)
                                      (photos d)\<rparr>
                            | None \<Rightarrow>
                                d\<lparr>photos :=
                                    photos d @
                                    [\<lparr>ph_id = photos_auto_increment d,
                                      ph_file_path = file_path,
                                      ph_file_name = file_name,
                                      ph_file_size = file_size,
                                      ph_width = img_width img,
                                      ph_height = img_height img,
                                      ph_format = img_format img,
                                      ph_created_at = now e,
                                      ph_processed_at = None,
                                      ph_yolo_model_used = yolo_model\<rparr>],
                                  photos_auto_increment := Suc (photos_auto_increment d)\<rparr>);
                         d2 =
                           (case extract_exif_data e file_path of
                              None \<Rightarrow> d1
                            | Some exif \<Rightarrow>
                                d1\<lparr>exif_data :=
                                     filter (\<lambda>r. ex_photo_id r \<noteq> photo_id) (exif_data d1)
                                     @ [\<lparr>ex_photo_id = photo_id, ex_fields = exif\<rparr>]\<rparr>)
                     in (Inr photo_id, d2)))))"

section \<open>The face processor\<close>

record face_processor =
  tolerance :: real
  known_face_encodings :: "real list list"
  known_face_names :: "string list"

text \<open>\<open>FaceProcessor.__init__\<close>\<close>

definition new_face_processor :: "real \<Rightarrow> face_processor" where
  "new_face_processor tol =
     \<lparr>tolerance = tol, known_face_encodings = [], known_face_names = []\<rparr>"

record known_face =
  kf_name :: string
  kf_face_encoding :: "real list"
  kf_image_path :: string

text \<open>\<open>set_known_faces\<close>: both lists are emptied and filled again, one entry per face.\<close>

definition set_known_faces :: "known_face list \<Rightarrow> face_processor \<Rightarrow> face_processor" where
  "set_known_faces known_faces fp =
     fp\<lparr>known_face_encodings := map kf_face_encoding known_faces,
        known_face_names := map kf_name known_faces\<rparr>"

text \<open>
  Modelled from the spec: the two functions of the face library that the matcher calls.
  \<open>face_distance\<close> gives the distance of every gallery encoding to the query, by the
  environment's distance function; \<open>compare_faces\<close> marks the entries whose distance is
  at most the tolerance.
\<close>

definition face_distance :: "env \<Rightarrow> real list list \<Rightarrow> real list \<Rightarrow> real list" where
  "face_distance e known query = map (\<lambda>k. distance e k query) known"

definition compare_faces :: "env \<Rightarrow> real list list \<Rightarrow> real list \<Rightarrow> real \<Rightarrow> bool list" where
  "compare_faces e known query tol = map (\<lambda>x. x \<le> tol) (face_distance e known query)"

text \<open>\<open>np.argmin\<close>: the first index of the least element; an empty array raises.\<close>

fun argmin_from :: "real list \<Rightarrow> nat \<Rightarrow> nat \<Rightarrow> real \<Rightarrow> nat" where
  "argmin_from [] i best_index best = best_index"
| "argmin_from (x # xs) i best_index best =
     (if x < best then argmin_from xs (Suc i) i x
      else argmin_from xs (Suc i) best_index best)"

definition argmin :: "real list \<Rightarrow> error + nat" where
  "argmin xs = (case xs of [] \<Rightarrow> Inl ValueError | x # rest \<Rightarrow> Inr (argmin_from rest 1 0 x))"

text \<open>\<open>xs[i]\<close> for an index that is not negative.\<close>

definition getitem :: "'a list \<Rightarrow> nat \<Rightarrow> error + 'a" where
  "getitem xs i = (if i < length xs then Inr (xs ! i) else Inl IndexError)"

text \<open>
  The recognition of one face inside the loop of \<open>detect_faces_in_image\<close>:
  \<^verbatim>\<open>
  recognized_name = None; recognized_confidence = None
  if self.known_face_encodings:
      matches = face_recognition.compare_faces(self.known_face_encodings, face_encoding,
                                               tolerance=self.tolerance)
      if True in matches:
          face_distances = face_recognition.face_distance(self.known_face_encodings,
                                                          face_encoding)
          best_match_index = np.argmin(face_distances)
          if matches[best_match_index]:
              recognized_name = self.known_face_names[best_match_index]
              recognized_confidence = 1.0 - face_distances[best_match_index]
  \<close>
\<close>

definition recognize ::
  "env \<Rightarrow> face_processor \<Rightarrow> real list \<Rightarrow> error + (string option \<times> real option)" where
  "recognize e fp encoding =
     (if known_face_encodings fp \<noteq> [] then
        (let matches = compare_faces e (known_face_encodings fp) encoding (tolerance fp)
         in if True \<in> set matches then
              (let face_distances = face_distance e (known_face_encodings fp) encoding
               in case argmin face_distances of
                    Inl err \<Rightarrow> Inl err
                  | Inr best_match_index \<Rightarrow>
                      (case getitem matches best_match_index of
                         Inl err \<Rightarrow> Inl err
                       | Inr m \<Rightarrow>
                           if m then
                             (case getitem (known_face_names fp) best_match_index of
                                Inl err \<Rightarrow> Inl err
                              | Inr name \<Rightarrow>
                                  (case getitem face_distances best_match_index of
                                     Inl err \<Rightarrow> Inl err
                                   | Inr least \<Rightarrow> Inr (Some name, Some (1 - least))))
                           else Inr (None, None)))
            else Inr (None, None))
      else Inr (None, None))"

fun recognize_faces ::
  "env \<Rightarrow> face_processor \<Rightarrow> (location \<times> real list) list \<Rightarrow> error + face_detection list"
  where
  "recognize_faces e fp [] = Inr []"
| "recognize_faces e fp ((face_location, encoding) # rest) =
     (case recognize e fp encoding of
        Inl err \<Rightarrow> Inl err
      | Inr (name, name_confidence) \<Rightarrow>
          (case recognize_faces e fp rest of
             Inl err \<Rightarrow> Inl err
           | Inr faces \<Rightarrow>
               Inr (\<lparr>fd_face_encoding = encoding,
                     fd_location_top = fst face_location,
                     fd_location_right = fst (snd face_location),
                     fd_location_bottom = fst (snd (snd face_location)),
                     fd_location_left = snd (snd (snd face_location)),
                     fd_confidence = 1,
                     fd_recognized_name = name,
                     fd_recognized_confidence = name_confidence\<rparr> # faces)))"

text \<open>
  \<open>detect_faces_in_image\<close>: the whole body stands in \<open>try\<close>, and the handler
  \<^verbatim>\<open>except Exception as e: logger.error(...); return []\<close>
  turns every exception into the empty list.
\<close>

definition detect_faces_in_image :: "env \<Rightarrow> face_processor \<Rightarrow> string \<Rightarrow> face_detection list"
  where
  "detect_faces_in_image e fp image_path =
     (case load_image_file e image_path of
        Inl err \<Rightarrow> []
      | Inr img \<Rightarrow>
          (case face_locations e img of
             Inl err \<Rightarrow> []
           | Inr locations \<Rightarrow>
               if locations = [] then []
               else
                 (case face_encodings e img locations of
                    Inl err \<Rightarrow> []
                  | Inr encodings \<Rightarrow>
                      (case recognize_faces e fp (zip locations encodings) of
                         Inl err \<Rightarrow> []
                       | Inr faces \<Rightarrow> faces))))"

section \<open>The orchestrator\<close>

record yolo_processor =
  model_name :: string
  face_processor :: face_processor

text \<open>
  The state the orchestrator works on: the catalog, and a trace of the calls made, which
  the program does not have. The trace records each entry into \<open>process_single_image\<close>
  and each call of the detector and of the face processor, with the path of the image.
\<close>

datatype invocation =
    Invoked_process_single_image string
  | Invoked_detector string
  | Invoked_face_encoder string

fun invocation_path :: "invocation \<Rightarrow> string" where
  "invocation_path (Invoked_process_single_image p) = p"
| "invocation_path (Invoked_detector p) = p"
| "invocation_path (Invoked_face_encoder p) = p"

record world =
  catalog :: db
  invocations :: "invocation list"

text \<open>
  The loops over the detector's results:
  \<^verbatim>\<open>
  for result in results:
      if result.boxes is not None:
          for box in result.boxes:
              class_id = int(box.cls[0].item())
              confidence = float(box.conf[0].item())
              class_name = self.model.names[class_id]
              detections.append({'class_name': ..., 'class_id': ..., 'confidence': ...})
  \<close>
\<close>

fun extract_boxes :: "(int \<Rightarrow> string option) \<Rightarrow> box list \<Rightarrow> error + detection list" where
  "extract_boxes names [] = Inr []"
| "extract_boxes names (b # bs) =
     (case names (cls b) of
        None \<Rightarrow> Inl KeyError
      | Some cn \<Rightarrow>
          (case extract_boxes names bs of
             Inl err \<Rightarrow> Inl err
           | Inr ds \<Rightarrow>
               Inr (\<lparr>class_name = cn, class_id = cls b, confidence = conf b\<rparr> # ds)))"

fun extract_detections ::
  "(int \<Rightarrow> string option) \<Rightarrow> box list option list \<Rightarrow> error + detection list" where
  "extract_detections names [] = Inr []"
| "extract_detections names (result # results) =
     (case (case result of None \<Rightarrow> Inr [] | Some boxes \<Rightarrow> extract_boxes names boxes) of
        Inl err \<Rightarrow> Inl err
      | Inr ds \<Rightarrow>
          (case extract_detections names results of
             Inl err \<Rightarrow> Inl err
           | Inr ds' \<Rightarrow> Inr (ds @ ds')))"

text \<open>The dictionary \<open>process_single_image\<close> returns.\<close>

record processing_result =
  res_photo_id :: nat
  res_file_path :: string
  res_detections_count :: nat
  res_face_detections_count :: nat
  res_detections :: "detection list"
  res_face_detections :: "face_detection list"

text \<open>
  \<open>process_single_image\<close>:
  \<^verbatim>\<open>
  try:
      photo_id = self.db.add_photo(image_path, self.model_name)
      results = self.model(image_path, conf=confidence_threshold)
      detections = [...]
      if detections:
          self.db.add_object_detections(photo_id, detections)
      face_detections = self.face_processor.detect_faces_in_image(image_path)
      if face_detections:
          self.db.add_face_detections(photo_id, face_detections)
      return {...}
  except Exception as e:
      logger.error(...)
      raise
  \<close>
\<close>

definition process_single_image ::
  "env \<Rightarrow> yolo_processor \<Rightarrow> string \<Rightarrow> real \<Rightarrow> world \<Rightarrow> (error + processing_result) \<times> world"
  where
  "process_single_image e yp image_path confidence_threshold w =
     (let w0 = w\<lparr>invocations := invocations w @ [Invoked_process_single_image image_path]\<rparr>
      in case add_photo e image_path (Some (model_name yp)) (catalog w0) of
           (Inl err, d1) \<Rightarrow> (Inl err, w0\<lparr>catalog := d1\<rparr>)
         | (Inr photo_id, d1) \<Rightarrow>
             (let w1 = w0\<lparr>catalog := d1,
                         invocations := invocations w0 @ [Invoked_detector image_path]\<rparr>
              in case yolo e image_path confidence_threshold of
                   Inl err \<Rightarrow> (Inl err, w1)
                 | Inr results \<Rightarrow>
                     (case extract_detections (model_names e) results of
                        Inl err \<Rightarrow> (Inl err, w1)
                      | Inr detections \<Rightarrow>
                          (case (if detections \<noteq> []
                                 then add_object_detections e photo_id detections (catalog w1)
                                 else (Inr (), catalog w1)) of
                             (Inl err, d2) \<Rightarrow> (Inl err, w1\<lparr>catalog := d2\<rparr>)
                           | (Inr u, d2) \<Rightarrow>
                               (let w2 = w1\<lparr>catalog := d2,
                                           invocations :=
                                             invocations w1 @ [Invoked_face_encoder image_path]\<rparr>;
                                    faces =
                                      detect_faces_in_image e (face_processor yp) image_path
                                in case (if faces \<noteq> []
                                         then add_face_detections e photo_id faces
                                                (catalog w2)
                                         else (Inr (), catalog w2)) of
                                     (Inl err, d3) \<Rightarrow> (Inl err, w2\<lparr>catalog := d3\<rparr>)
                                   | (Inr u, d3) \<Rightarrow>
                                       (Inr \<lparr>res_photo_id = photo_id,
                                             res_file_path = image_path,
                                             res_detections_count = length detections,
                                             res_face_detections_count = length faces,
                                             res_detections = detections,
                                             res_face_detections = faces\<rparr>,
                                        w2\<lparr>catalog := d3\<rparr>))))))"

subsection \<open>The directory crawl\<close>

text \<open>\<open>os.path.join\<close> of two components, with \<open>/\<close> as the separator.\<close>

definition os_path_join :: "string \<Rightarrow> string \<Rightarrow> string" where
  "os_path_join a b =
     (if startswith b ''/'' then b
      else if a = [] \<or> last a = CHR ''/'' then a @ b
      else a @ ''/'' @ b)"

definition default_file_extensions :: "string list" where
  "default_file_extensions = [''.jpg'', ''.jpeg'', ''.png'', ''.bmp'', ''.tiff'']"

text \<open>
  The enumeration at the head of \<open>process_directory\<close>:
  \<^verbatim>\<open>
  for ext in file_extensions:
      # Search for both lowercase and uppercase extensions
      for case_ext in [ext, ext.upper()]:
          pattern = os.path.join(directory_path, f"**/*{case_ext}")
          found_files = glob.glob(pattern, recursive=True)
          image_files.extend(found_files)
  # Remove duplicates (in case both .jpg and .JPG patterns match the same file)
  image_files = list(set(image_files))
  image_files.sort()
  \<close>
  A set has no order of its own, and the sort that follows fixes one: the list without
  duplicates, sorted. Strings compare by code point, a proper prefix first.
\<close>

definition found_files :: "env \<Rightarrow> string \<Rightarrow> string list \<Rightarrow> string list" where
  "found_files e directory_path file_extensions =
     concat (map (\<lambda>ext.
        concat (map (\<lambda>case_ext. glob e (os_path_join directory_path (''**/*'' @ case_ext)))
                  [ext, upper ext]))
       file_extensions)"

definition find_image_files :: "env \<Rightarrow> string \<Rightarrow> string list option \<Rightarrow> string list" where
  "find_image_files e directory_path file_extensions =
     sort (remdups (found_files e directory_path
       (case file_extensions of None \<Rightarrow> default_file_extensions | Some exts \<Rightarrow> exts)))"

subsection \<open>The batch\<close>

text \<open>
  \<open>_is_image_already_processed\<close>: the row of the path has a \<open>processed_at\<close>; a failing
  query counts as not processed (\<^verbatim>\<open>except Exception: return False\<close>).
\<close>

definition is_image_already_processed :: "env \<Rightarrow> string \<Rightarrow> db \<Rightarrow> bool" where
  "is_image_already_processed e image_path d =
     (case db_fault e (Call_is_image_already_processed image_path) of
        Some err \<Rightarrow> False
      | None \<Rightarrow>
          (case find (\<lambda>p. ph_file_path p = image_path) (photos d) of
             Some row \<Rightarrow> (if ph_processed_at row \<noteq> None then True else False)
           | None \<Rightarrow> False))"

text \<open>The three dictionaries the loop of \<open>process_directory\<close> appends to \<open>results\<close>.\<close>

datatype file_result =
    Processed processing_result
  | Skipped string
  | Failed string string

fun result_file_path :: "file_result \<Rightarrow> string" where
  "result_file_path (Processed r) = res_file_path r"
| "result_file_path (Skipped p) = p"
| "result_file_path (Failed p m) = p"

fun result_status :: "file_result \<Rightarrow> string" where
  "result_status (Processed r) = ''processed''"
| "result_status (Skipped p) = ''skipped''"
| "result_status (Failed p m) = ''error''"

text \<open>
  One round of the loop:
  \<^verbatim>\<open>
  try:
      if not force_reprocess and self._is_image_already_processed(image_path):
          results.append({'file_path': image_path, 'status': 'skipped', ...})
          continue
      result = self.process_single_image(image_path, confidence_threshold)
      result['status'] = 'processed'
      results.append(result)
  except Exception as e:
      results.append({'file_path': image_path, 'status': 'error', 'error': str(e), ...})
  \<close>
\<close>

definition process_file ::
  "env \<Rightarrow> yolo_processor \<Rightarrow> real \<Rightarrow> bool \<Rightarrow> string \<Rightarrow> world \<Rightarrow> file_result \<times> world" where
  "process_file e yp confidence_threshold force_reprocess image_path w =
     (if \<not> force_reprocess \<and> is_image_already_processed e image_path (catalog w)
      then (Skipped image_path, w)
      else
        (case process_single_image e yp image_path confidence_threshold w of
           (Inl err, w') \<Rightarrow> (Failed image_path (str_of_error err), w')
         | (Inr result, w') \<Rightarrow> (Processed result, w')))"

fun process_files ::
  "env \<Rightarrow> yolo_processor \<Rightarrow> real \<Rightarrow> bool \<Rightarrow> string list \<Rightarrow> world \<Rightarrow>
   file_result list \<times> world" where
  "process_files e yp confidence_threshold force_reprocess [] w = ([], w)"
| "process_files e yp confidence_threshold force_reprocess (image_path # rest) w =
     (case process_file e yp confidence_threshold force_reprocess image_path w of
        (r, w') \<Rightarrow>
          (case process_files e yp confidence_threshold force_reprocess rest w' of
             (rs, w'') \<Rightarrow> (r # rs, w'')))"

definition process_directory ::
  "env \<Rightarrow> yolo_processor \<Rightarrow> string \<Rightarrow> real \<Rightarrow> string list option \<Rightarrow> bool \<Rightarrow> world \<Rightarrow>
   file_result list \<times> world" where
  "process_directory e yp directory_path confidence_threshold file_extensions force_reprocess w =
     process_files e yp confidence_threshold force_reprocess
       (find_image_files e directory_path file_extensions) w"

section \<open>A file system for the crawl\<close>

text \<open>
  \<open>glob.glob(pattern, recursive=True)\<close> on a file system where names are compared
  character by character. The file system is the list of its regular files, as paths;
  a pattern and a path are split at the slashes and matched component by component:
  \<open>**\<close> stands for any number of directories, \<open>*\<close> for any characters of one name,
  \<open>?\<close> for one character. A name that starts with a dot is matched only by a pattern
  component that starts with a dot, and \<open>**\<close> does not descend into such a directory.
  Bracket expressions are not modelled; the patterns of the crawl have none unless an
  extension brings one.
\<close>

fun fnmatch :: "string \<Rightarrow> string \<Rightarrow> bool" where
  "fnmatch [] [] = True"
| "fnmatch [] (c # cs) = False"
| "fnmatch (p # ps) [] = (p = CHR ''*'' \<and> fnmatch ps [])"
| "fnmatch (p # ps) (c # cs) =
     (if p = CHR ''*'' then fnmatch ps (c # cs) \<or> fnmatch (p # ps) cs
      else (p = CHR ''?'' \<or> p = c) \<and> fnmatch ps cs)"

definition is_hidden :: "string \<Rightarrow> bool" where
  "is_hidden name = startswith name ''.''"

definition component_match :: "string \<Rightarrow> string \<Rightarrow> bool" where
  "component_match pat name =
     ((if is_hidden name then is_hidden pat else True) \<and> fnmatch pat name)"

fun glob_match :: "string list \<Rightarrow> string list \<Rightarrow> bool" where
  "glob_match [] [] = True"
| "glob_match [] (c # cs) = False"
| "glob_match (p # ps) [] = (p = ''**'' \<and> glob_match ps [])"
| "glob_match (p # ps) (c # cs) =
     (if p = ''**'' then glob_match ps (c # cs) \<or> (\<not> is_hidden c \<and> glob_match (p # ps) cs)
      else component_match p c \<and> glob_match ps cs)"

definition posix_glob :: "string list \<Rightarrow> string \<Rightarrow> string list" where
  "posix_glob files pattern =
     filter (\<lambda>path. glob_match (split_on CHR ''/'' pattern) (split_on CHR ''/'' path)) files"

section \<open>The specification's words\<close>

text \<open>
  The summary row the specification asks for, for one class name of a list of
  detections: the number of events of the class, the mean and the maximum of their
  confidences, and the class id of the first of them.
\<close>

definition expected_summary :: "nat \<Rightarrow> detection list \<Rightarrow> string \<Rightarrow> object_summary_row" where
  "expected_summary photo_id detections cn =
     (let events = filter (\<lambda>d. class_name d = cn) detections
      in \<lparr>os_photo_id = photo_id, os_class_name = cn,
          os_class_id = class_id (hd events),
          os_total_count = int (length events),
          os_avg_confidence = sum_list (map confidence events) / real (length events),
          os_max_confidence = Max (set (map confidence events))\<rparr>)"

text \<open>
  The two-phase match of the specification, on a gallery of names and encodings in
  insertion order: the candidates are the entries within the tolerance; without a
  candidate the answer is \<open>(None, None)\<close>; otherwise it is the first candidate whose
  distance no candidate undercuts, with one minus that distance.
\<close>

definition match_spec ::
  "env \<Rightarrow> (string \<times> real list) list \<Rightarrow> real list \<Rightarrow> real \<Rightarrow> string option \<times> real option"
  where
  "match_spec e gallery query tol =
     (let scored = map (\<lambda>(name, encoding). (name, distance e encoding query)) gallery;
          candidates = filter (\<lambda>(name, x). x \<le> tol) scored
      in if gallery = [] \<or> candidates = [] then (None, None)
         else
           (case find (\<lambda>(name, x). \<forall>(name', y) \<in> set candidates. x \<le> y) candidates of
              None \<Rightarrow> (None, None)
            | Some (name, x) \<Rightarrow> (Some name, Some (1 - x))))"






section \<open>Invariants\<close>

text \<open>
  What the two dictionaries of the grouping loop hold once the detections \<open>seen\<close> have
  been read: the same keys in the same order, each once, the class names seen; the count
  and the confidences of each class, in input order.
\<close>

definition grouped :: "detection list \<Rightarrow> (string, int) dict \<Rightarrow> (string, real list) dict \<Rightarrow> bool" where
  "grouped seen cc cf \<longleftrightarrow>
     map fst cc = map fst cf \<and> distinct (map fst cc) \<and>
     set (map fst cc) = class_name ` set seen \<and>
     (\<forall>cn \<in> class_name ` set seen.
        map_of cc cn = Some (int (length (filter (\<lambda>d. class_name d = cn) seen))) \<and>
        map_of cf cn = Some (map confidence (filter (\<lambda>d. class_name d = cn) seen)))"


text \<open>
  The face step raises inside \<open>detect_faces_in_image\<close>: loading the image, locating the
  faces, encoding them or matching one of them fails.
\<close>

definition face_step_raises :: "env \<Rightarrow> face_processor \<Rightarrow> string \<Rightarrow> bool" where
  "face_step_raises e fp image_path =
     (case load_image_file e image_path of
        Inl err \<Rightarrow> True
      | Inr img \<Rightarrow>
          (case face_locations e img of
             Inl err \<Rightarrow> True
           | Inr locations \<Rightarrow>
               locations \<noteq> [] \<and>
               (case face_encodings e img locations of
                  Inl err \<Rightarrow> True
                | Inr encodings \<Rightarrow> isl (recognize_faces e fp (zip locations encodings)))))"

text \<open>
  The row of a path in \<open>photos\<close>, as the SELECT by \<open>file_path\<close> with \<open>fetchone\<close> finds it,
  and what every catalog operation keeps of it: once a path has a row, it has one with
  the same id, and a \<open>processed_at\<close> that is set stays set.
\<close>

definition photo_of :: "db \<Rightarrow> string \<Rightarrow> photo_row option" where
  "photo_of d p = find (\<lambda>q. ph_file_path q = p) (photos d)"

definition keeps_photo :: "db \<Rightarrow> db \<Rightarrow> string \<Rightarrow> bool" where
  "keeps_photo d d' p =
     (case photo_of d p of
        None \<Rightarrow> True
      | Some row \<Rightarrow>
          (case photo_of d' p of
             None \<Rightarrow> False
           | Some row' \<Rightarrow>
               ph_id row' = ph_id row \<and>
               (if ph_processed_at row \<noteq> None then ph_processed_at row' \<noteq> None else True)))"

text \<open>The path has a row in \<open>photos\<close> whose \<open>processed_at\<close> is set.\<close>

definition processed_in :: "db \<Rightarrow> string \<Rightarrow> bool" where
  "processed_in d p =
     (case photo_of d p of None \<Rightarrow> False | Some row \<Rightarrow> ph_processed_at row \<noteq> None)"

section \<open>Example environments and catalogs\<close>

text \<open>
  A directory \<open>photos\<close> with three images. The detector finds two cats and a dog in
  every image, the face library one face with the encoding \<open>[0]\<close>; the distance of two
  encodings is the sum of the absolute differences of their components.
\<close>

definition l1_distance :: "real list \<Rightarrow> real list \<Rightarrow> real" where
  "l1_distance a b = sum_list (map (\<lambda>(x, y). \<bar>x - y\<bar>) (zip a b))"

definition example_files :: "string list" where
  "example_files = [''photos/b.png'', ''photos/a.jpg'', ''photos/sub/c.JPG'']"

definition example_boxes :: "box list" where
  "example_boxes = [\<lparr>cls = 15, conf = 9/10\<rparr>, \<lparr>cls = 16, conf = 4/5\<rparr>, \<lparr>cls = 15, conf = 7/10\<rparr>]"

definition example_names :: "int \<Rightarrow> string option" where
  "example_names i =
     (if i = 14 then Some ''bird'' else if i = 15 then Some ''cat''
      else if i = 16 then Some ''dog'' else None)"

definition example_env :: env where
  "example_env =
     \<lparr>getsize = (\<lambda>p. Inr 1024),
      image_open = (\<lambda>p. Inr \<lparr>img_width = 640, img_height = 480, img_format = Some ''JPEG''\<rparr>),
      getexif = (\<lambda>p. Inr None),
      yolo = (\<lambda>p thr. Inr [Some example_boxes]),
      model_names = example_names,
      load_image_file = (\<lambda>p. Inr []),
      face_locations = (\<lambda>img. Inr [(10, 60, 60, 10)]),
      face_encodings = (\<lambda>img locations. Inr (map (\<lambda>l. [0]) locations)),
      distance = l1_distance,
      glob = posix_glob example_files,
      now = 1700000000,
      db_fault = (\<lambda>c. None)\<rparr>"

definition example_detections :: "detection list" where
  "example_detections =
     [\<lparr>class_name = ''cat'', class_id = 15, confidence = 9/10\<rparr>,
      \<lparr>class_name = ''dog'', class_id = 16, confidence = 4/5\<rparr>,
      \<lparr>class_name = ''cat'', class_id = 15, confidence = 7/10\<rparr>]"

definition empty_db :: db where
  "empty_db =
     \<lparr>photos = [], photos_auto_increment = 1, exif_data = [], object_detections = [],
      object_summary = [], face_detections = [], face_summary = []\<rparr>"

definition example_photo :: photo_row where
  "example_photo =
     \<lparr>ph_id = 1, ph_file_path = ''photos/a.jpg'', ph_file_name = ''a.jpg'',
      ph_file_size = 1024, ph_width = 640, ph_height = 480, ph_format = Some ''JPEG'',
      ph_created_at = 1600000000, ph_processed_at = Some 1600000100,
      ph_yolo_model_used = Some ''yolov8n.pt''\<rparr>"

text \<open>A catalog in which \<open>photos/a.jpg\<close> has been processed before, with one bird.\<close>

definition example_db :: db where
  "example_db =
     \<lparr>photos = [example_photo], photos_auto_increment = 2, exif_data = [],
      object_detections =
        [(1, \<lparr>class_name = ''bird'', class_id = 14, confidence = 1/2\<rparr>)],
      object_summary =
        [\<lparr>os_photo_id = 1, os_class_name = ''bird'', os_class_id = 14, os_total_count = 1,
          os_avg_confidence = 1/2, os_max_confidence = 1/2\<rparr>],
      face_detections = [], face_summary = []\<rparr>"

text \<open>
  A gallery of three faces at the distances 0.5, 0.3 and 0.7 from the encoding \<open>[0]\<close>,
  and a face processor with the tolerance 0.6 that holds it.
\<close>

definition example_known_faces :: "known_face list" where
  "example_known_faces =
     [\<lparr>kf_name = ''alice'', kf_face_encoding = [1/2], kf_image_path = ''known/alice/1.jpg''\<rparr>,
      \<lparr>kf_name = ''bob'', kf_face_encoding = [3/10], kf_image_path = ''known/bob/1.jpg''\<rparr>,
      \<lparr>kf_name = ''carol'', kf_face_encoding = [7/10], kf_image_path = ''known/carol/1.jpg''\<rparr>]"

definition example_face_processor :: face_processor where
  "example_face_processor = set_known_faces example_known_faces (new_face_processor (3/5))"

definition example_processor :: yolo_processor where
  "example_processor = \<lparr>model_name = ''yolov8n.pt'', face_processor = example_face_processor\<rparr>"

text \<open>
  The same catalog with an EXIF row for the photo, as an earlier ingestion left it, and
  an environment in which the image carries EXIF tags.
\<close>

definition example_exif :: exif_fields where
  "example_exif =
     \<lparr>camera_make = Some ''Canon'', camera_model = Some ''EOS 5D'', software = None,
      date_time_original = Some ''2019-07-14T09:30:00'', exposure_time = Some (1/250),
      f_number = Some 4, iso_speed = Some 200, focal_length = Some 50,
      gps_latitude = None, gps_longitude = None, gps_altitude = None\<rparr>"

definition example_db_with_exif :: db where
  "example_db_with_exif =
     example_db\<lparr>exif_data := [\<lparr>ex_photo_id = 1, ex_fields = example_exif\<rparr>]\<rparr>"

definition example_raw_exif :: raw_exif where
  "example_raw_exif =
     \<lparr>tag_Make = Some ''Nikon'', tag_Model = Some ''D750'', tag_Software = None,
      tag_DateTimeOriginal = Some ''2023:05:01 10:00:00'', tag_ExposureTime = Some (1/100),
      tag_FNumber = Some 8, tag_ISOSpeedRatings = Some 100, tag_FocalLength = Some 35,
      tag_GPSLatitude = None, tag_GPSLongitude = None, tag_GPSAltitude = None\<rparr>"

definition example_env_with_exif :: env where
  "example_env_with_exif = example_env\<lparr>getexif := (\<lambda>p. Inr (Some example_raw_exif))\<rparr>"

text \<open>
  The orchestrator's state on that catalog, an environment in which the face library
  cannot load the image, and one in which the detector fails.
\<close>

definition example_world :: world where
  "example_world = \<lparr>catalog = example_db, invocations = []\<rparr>"

definition example_env_face_fails :: env where
  "example_env_face_fails =
     example_env\<lparr>load_image_file := (\<lambda>p. Inl (FaceLibraryError ''cannot identify image file''))\<rparr>"

definition example_env_detector_fails :: env where
  "example_env_detector_fails =
     example_env\<lparr>yolo := (\<lambda>p thr. Inl (DetectorError ''out of memory''))\<rparr>"

text \<open>
  The empty catalog before any ingestion, the record of the face found in every image,
  the catalog after \<open>photos/a.jpg\<close> has been processed in the example environment, and
  two environments for processing it again: one in which the detector finds a single
  bird, one in which neither the detector nor the face library finds anything.
\<close>

definition empty_world :: world where
  "empty_world = \<lparr>catalog = empty_db, invocations = []\<rparr>"

definition example_faces :: "face_detection list" where
  "example_faces =
     [\<lparr>fd_face_encoding = [0], fd_location_top = 10, fd_location_right = 60,
       fd_location_bottom = 60, fd_location_left = 10, fd_confidence = 1,
       fd_recognized_name = Some ''bob'', fd_recognized_confidence = Some (7/10)\<rparr>]"

definition db_after_A :: db where
  "db_after_A =
     \<lparr>photos =
        [\<lparr>ph_id = 1, ph_file_path = ''photos/a.jpg'', ph_file_name = ''a.jpg'',
          ph_file_size = 1024, ph_width = 640, ph_height = 480, ph_format = Some ''JPEG'',
          ph_created_at = 1700000000, ph_processed_at = Some 1700000000,
          ph_yolo_model_used = Some ''yolov8n.pt''\<rparr>],
      photos_auto_increment = 2, exif_data = [],
      object_detections = map (Pair 1) example_detections,
      object_summary =
        [\<lparr>os_photo_id = 1, os_class_name = ''cat'', os_class_id = 15, os_total_count = 2,
          os_avg_confidence = 4/5, os_max_confidence = 9/10\<rparr>,
         \<lparr>os_photo_id = 1, os_class_name = ''dog'', os_class_id = 16, os_total_count = 1,
          os_avg_confidence = 4/5, os_max_confidence = 4/5\<rparr>],
      face_detections = map (Pair 1) example_faces,
      face_summary =
        [\<lparr>fs_photo_id = 1, fs_total_faces = 1, fs_recognized_faces = 1,
          fs_unrecognized_faces = 0\<rparr>]\<rparr>"

definition world_after_A :: world where
  "world_after_A =
     \<lparr>catalog = db_after_A,
      invocations = [Invoked_process_single_image ''photos/a.jpg'',
                     Invoked_detector ''photos/a.jpg'',
                     Invoked_face_encoder ''photos/a.jpg'']\<rparr>"

definition example_env_bird :: env where
  "example_env_bird = example_env\<lparr>yolo := (\<lambda>p thr. Inr [Some [\<lparr>cls = 14, conf = 1/2\<rparr>]])\<rparr>"

definition example_env_nothing :: env where
  "example_env_nothing =
     example_env\<lparr>yolo := (\<lambda>p thr. Inr [Some []]), face_locations := (\<lambda>img. Inr [])\<rparr>"

text \<open>The row of \<open>photos/a.jpg\<close> in these catalogs, by its \<open>processed_at\<close>.\<close>

definition photo_A :: "nat option \<Rightarrow> photo_row" where
  "photo_A processed = \<lparr>ph_id = 1, ph_file_path = ''photos/a.jpg'', ph_file_name = ''a.jpg'',
          ph_file_size = 1024, ph_width = 640, ph_height = 480, ph_format = Some ''JPEG'',
          ph_created_at = 1700000000, ph_processed_at = processed,
          ph_yolo_model_used = Some ''yolov8n.pt''\<rparr>"



section \<open>The detection aggregator\<close>

lemma map_of_dict_setitem: "map_of (dict_setitem k v d) = (map_of d)(k \<mapsto> v)"
  by (induction d) (auto simp: fun_eq_iff)

lemma keys_dict_setitem:
  "map fst (dict_setitem k v d) = (if k \<in> set (map fst d) then map fst d else map fst d @ [k])"
  by (induction k v d rule: dict_setitem.induct) auto

lemma py_sum_sum_list: "py_sum xs = sum_list xs"
proof -
  have "fold (\<lambda>x acc. acc + x) xs a = a + sum_list xs" for a :: real
    by (induction xs arbitrary: a) auto
  then show ?thesis by (simp add: py_sum_def)
qed

lemma py_max_Max: "xs \<noteq> [] \<Longrightarrow> py_max xs = Inr (Max (set xs))"
proof (cases xs)
  case Nil
  assume "xs \<noteq> []"
  with Nil show ?thesis by simp
next
  case (Cons a list)
  then show ?thesis using Max.set_eq_fold[of a list] by (simp add: py_max_def)
qed

lemma find_filter_hd:
  "find P xs = (case filter P xs of [] \<Rightarrow> None | x # _ \<Rightarrow> Some x)"
  by (induction xs) auto

lemma first_class_id_hd:
  "cn \<in> class_name ` set ds \<Longrightarrow>
   first_class_id ds cn = Inr (class_id (hd (filter (\<lambda>d. class_name d = cn) ds)))"
  by (auto simp: first_class_id_def find_filter_hd filter_empty_conv split: list.splits)

lemma group_detections_present:
  "map_of cc (class_name d) = Some c \<Longrightarrow> map_of cf (class_name d) = Some cs \<Longrightarrow>
   group_detections (d # ds) (cc, cf) =
     group_detections ds (dict_setitem (class_name d) (c + 1) cc,
                          dict_setitem (class_name d) (cs @ [confidence d]) cf)"
  by (simp add: dict_contains_def dict_getitem_def Let_def)

lemma group_detections_absent:
  "map_of cc (class_name d) = None \<Longrightarrow>
   group_detections (d # ds) (cc, cf) =
     group_detections ds (dict_setitem (class_name d) 1 (dict_setitem (class_name d) 0 cc),
                          dict_setitem (class_name d) [confidence d]
                            (dict_setitem (class_name d) [] cf))"
  by (simp add: dict_contains_def dict_getitem_def Let_def map_of_dict_setitem)

lemma grouped_present:
  assumes g: "grouped seen cc cf" and m: "class_name d \<in> class_name ` set seen"
  shows "grouped (seen @ [d])
           (dict_setitem (class_name d)
              (int (length (filter (\<lambda>x. class_name x = class_name d) seen)) + 1) cc)
           (dict_setitem (class_name d)
              (map confidence (filter (\<lambda>x. class_name x = class_name d) seen) @ [confidence d]) cf)"
proof -
  from g have k: "map fst cc = map fst cf" and dist: "distinct (map fst cc)"
    and dom: "set (map fst cc) = class_name ` set seen"
    unfolding grouped_def by blast+
  from g have vals: "\<And>cn. cn \<in> class_name ` set seen \<Longrightarrow>
        map_of cc cn = Some (int (length (filter (\<lambda>d. class_name d = cn) seen))) \<and>
        map_of cf cn = Some (map confidence (filter (\<lambda>d. class_name d = cn) seen))"
    unfolding grouped_def by blast
  have in1: "class_name d \<in> set (map fst cc)" using m dom by simp
  have in2: "class_name d \<in> set (map fst cf)" using in1 k by simp
  show ?thesis
    unfolding grouped_def
    using k dist dom m vals in1 in2
    by (auto simp: keys_dict_setitem map_of_dict_setitem)
qed

lemma grouped_absent:
  assumes g: "grouped seen cc cf" and m: "class_name d \<notin> class_name ` set seen"
  shows "grouped (seen @ [d])
           (dict_setitem (class_name d) 1 (dict_setitem (class_name d) 0 cc))
           (dict_setitem (class_name d) [confidence d] (dict_setitem (class_name d) [] cf))"
proof -
  from g have k: "map fst cc = map fst cf" and dist: "distinct (map fst cc)"
    and dom: "set (map fst cc) = class_name ` set seen"
    unfolding grouped_def by blast+
  from g have vals: "\<And>cn. cn \<in> class_name ` set seen \<Longrightarrow>
        map_of cc cn = Some (int (length (filter (\<lambda>d. class_name d = cn) seen))) \<and>
        map_of cf cn = Some (map confidence (filter (\<lambda>d. class_name d = cn) seen))"
    unfolding grouped_def by blast
  have in1: "class_name d \<notin> set (map fst cc)" using m dom by simp
  have in2: "class_name d \<notin> set (map fst cf)" using in1 k by simp
  have e: "filter (\<lambda>x. class_name x = class_name d) seen = []"
  proof -
    have "\<And>x. x \<in> set seen \<Longrightarrow> class_name x \<noteq> class_name d"
      using m by (metis imageI)
    then show ?thesis by (simp add: filter_empty_conv)
  qed
  show ?thesis
    unfolding grouped_def
    using k dist dom m vals in1 in2 e
    by (auto simp: keys_dict_setitem map_of_dict_setitem)
qed

lemma group_detections_grouped:
  "grouped seen cc cf \<Longrightarrow>
   \<exists>cc' cf'. group_detections ds (cc, cf) = Inr (cc', cf') \<and> grouped (seen @ ds) cc' cf'"
proof (induction ds arbitrary: seen cc cf)
  case Nil
  then show ?case by simp
next
  case (Cons d ds)
  show ?case
  proof (cases "class_name d \<in> class_name ` set seen")
    case True
    from Cons.prems True have
      v: "map_of cc (class_name d) = Some (int (length (filter (\<lambda>x. class_name x = class_name d) seen)))"
         "map_of cf (class_name d) = Some (map confidence (filter (\<lambda>x. class_name x = class_name d) seen))"
      unfolding grouped_def by blast+
    from Cons.IH[OF grouped_present[OF Cons.prems True]]
    show ?thesis unfolding group_detections_present[OF v] by simp
  next
    case False
    from Cons.prems False have "class_name d \<notin> set (map fst cc)"
      unfolding grouped_def by blast
    then have v: "map_of cc (class_name d) = None"
      by (simp add: map_of_eq_None_iff)
    from Cons.IH[OF grouped_absent[OF Cons.prems False]]
    show ?thesis unfolding group_detections_absent[OF v] by simp
  qed
qed

lemma grouped_initial: "grouped [] [] []"
  by (simp add: grouped_def)

lemma summary_rows_expected:
  assumes g: "grouped ds cc cf"
  shows "set its \<subseteq> set cc \<Longrightarrow>
         summary_rows pid ds its cf = Inr (map (\<lambda>(cn, c). expected_summary pid ds cn) its)"
proof (induction its)
  case Nil
  then show ?case by simp
next
  case (Cons it its)
  obtain cn c where it: "it = (cn, c)" by (cases it)
  from Cons.prems it have mem: "(cn, c) \<in> set cc" by simp
  from g have dist: "distinct (map fst cc)"
    and dom: "set (map fst cc) = class_name ` set ds"
    unfolding grouped_def by blast+
  from mem dom have cn: "cn \<in> class_name ` set ds" by force
  let ?evs = "filter (\<lambda>d. class_name d = cn) ds"
  from g cn have vc: "map_of cc cn = Some (int (length ?evs))"
    and vf: "map_of cf cn = Some (map confidence ?evs)"
    unfolding grouped_def by blast+
  from mem dist have "map_of cc cn = Some c" by simp
  with vc have c: "c = int (length ?evs)" by simp
  from cn have ne: "?evs \<noteq> []" by (auto simp: filter_empty_conv)
  from Cons.prems have "set its \<subseteq> set cc" by simp
  from Cons.IH[OF this] show ?case
    using ne
    by (simp add: it dict_getitem_def vf py_max_Max first_class_id_hd[OF cn] c
        py_sum_sum_list expected_summary_def Let_def)
qed

lemma filter_key_distinct:
  "distinct (map fst kvs) \<Longrightarrow>
   filter (\<lambda>kv. fst kv = k) kvs = (case map_of kvs k of None \<Rightarrow> [] | Some v \<Rightarrow> [(k, v)])"
proof (induction kvs)
  case Nil
  then show ?case by simp
next
  case (Cons kv kvs)
  obtain k' v' where kv: "kv = (k', v')" by (cases kv)
  show ?case
  proof (cases "k' = k")
    case True
    with Cons.prems kv have "k \<notin> fst ` set kvs" by simp
    then have "filter (\<lambda>kv. fst kv = k) kvs = []"
      by (auto simp: filter_empty_conv)
    with True kv show ?thesis by simp
  next
    case False
    with Cons kv show ?thesis by simp
  qed
qed

lemma add_object_detections_result:
  "\<exists>cc cf. grouped detections cc cf \<and>
     add_object_detections e photo_id detections d =
       (case db_fault e (Call_add_object_detections photo_id) of
             Some err \<Rightarrow> (Inl err, d)
           | None \<Rightarrow>
               if detections \<noteq> [] \<and> photo_id \<notin> ph_id ` set (photos d)
               then (Inl IntegrityError, d)
               else (Inr (),
                       d\<lparr>object_detections :=
                            filter (\<lambda>r. fst r \<noteq> photo_id) (object_detections d)
                            @ map (Pair photo_id) detections,
                          object_summary :=
                            filter (\<lambda>r. os_photo_id r \<noteq> photo_id) (object_summary d)
                            @ map (\<lambda>(cn, c). expected_summary photo_id detections cn) cc,
                          photos :=
                            map (\<lambda>p. if ph_id p = photo_id
                                      then p\<lparr>ph_processed_at := Some (now e)\<rparr> else p)
                              (photos d)\<rparr>))"
proof -
  from group_detections_grouped[OF grouped_initial, of detections]
  obtain cc cf where gd: "group_detections detections ([], []) = Inr (cc, cf)"
    and g: "grouped detections cc cf" by auto
  have "summary_rows photo_id detections cc cf =
          Inr (map (\<lambda>(cn, c). expected_summary photo_id detections cn) cc)"
    by (rule summary_rows_expected[OF g]) simp
  with gd g show ?thesis
    by (auto simp: add_object_detections_def split: option.splits)
qed

lemma expected_rows_of_class:
  assumes g: "grouped detections cc cf"
  shows "filter (\<lambda>r. os_photo_id r = photo_id \<and> os_class_name r = cn)
           (map (\<lambda>(k, c). expected_summary photo_id detections k) cc) =
         (if cn \<in> class_name ` set detections
          then [expected_summary photo_id detections cn] else [])"
proof -
  from g have dist: "distinct (map fst cc)"
    and dom: "set (map fst cc) = class_name ` set detections"
    unfolding grouped_def by blast+
  have "filter (\<lambda>r. os_photo_id r = photo_id \<and> os_class_name r = cn)
           (map (\<lambda>(k, c). expected_summary photo_id detections k) cc) =
        map (\<lambda>(k, c). expected_summary photo_id detections k) (filter (\<lambda>kv. fst kv = cn) cc)"
    by (simp add: filter_map comp_def expected_summary_def case_prod_unfold Let_def)
  also have "\<dots> = (if cn \<in> class_name ` set detections
          then [expected_summary photo_id detections cn] else [])"
  proof (cases "map_of cc cn")
    case None
    then have "cn \<notin> class_name ` set detections"
      using dom by (simp add: map_of_eq_None_iff)
    with None show ?thesis by (simp add: filter_key_distinct[OF dist])
  next
    case (Some v)
    then have "cn \<in> class_name ` set detections"
      using dom by (metis map_of_eq_None_iff not_Some_eq set_map)
    with Some show ?thesis by (simp add: filter_key_distinct[OF dist])
  qed
  finally show ?thesis .
qed

lemma add_object_detections_succeeds:
  assumes "db_fault e (Call_add_object_detections photo_id) = None"
    and "detections = [] \<or> photo_id \<in> ph_id ` set (photos d)"
  shows "fst (add_object_detections e photo_id detections d) = Inr ()"
  using add_object_detections_result[of detections e photo_id d] assms
  by auto

section \<open>Single-file processing\<close>

lemma add_object_detections_rows:
  assumes "add_object_detections e photo_id detections d = (Inr (), d')"
  shows "filter (\<lambda>r. fst r = photo_id) (object_detections d') = map (Pair photo_id) detections"
    and "\<forall>cn. filter (\<lambda>r. os_photo_id r = photo_id \<and> os_class_name r = cn) (object_summary d') =
            (if cn \<in> class_name ` set detections
             then [expected_summary photo_id detections cn] else [])"
proof -
  from add_object_detections_result[of detections e photo_id d]
  obtain cc cf where g: "grouped detections cc cf"
    and r: "add_object_detections e photo_id detections d =
       (case db_fault e (Call_add_object_detections photo_id) of
             Some err \<Rightarrow> (Inl err, d)
           | None \<Rightarrow>
               if detections \<noteq> [] \<and> photo_id \<notin> ph_id ` set (photos d)
               then (Inl IntegrityError, d)
               else (Inr (),
                       d\<lparr>object_detections :=
                            filter (\<lambda>r. fst r \<noteq> photo_id) (object_detections d)
                            @ map (Pair photo_id) detections,
                          object_summary :=
                            filter (\<lambda>r. os_photo_id r \<noteq> photo_id) (object_summary d)
                            @ map (\<lambda>(cn, c). expected_summary photo_id detections cn) cc,
                          photos :=
                            map (\<lambda>p. if ph_id p = photo_id
                                      then p\<lparr>ph_processed_at := Some (now e)\<rparr> else p)
                              (photos d)\<rparr>))"
    by blast
  from assms r have od: "object_detections d' =
        filter (\<lambda>r. fst r \<noteq> photo_id) (object_detections d) @ map (Pair photo_id) detections"
    and os: "object_summary d' =
        filter (\<lambda>r. os_photo_id r \<noteq> photo_id) (object_summary d)
        @ map (\<lambda>(cn, c). expected_summary photo_id detections cn) cc"
    by (auto split: option.splits if_splits)
  have old1: "filter (\<lambda>r. fst r = photo_id)
               (filter (\<lambda>r. fst r \<noteq> photo_id) (object_detections d)) = []"
    by (auto simp: filter_empty_conv)
  have new1: "filter (\<lambda>r. fst r = photo_id) (map (Pair photo_id) detections) =
               map (Pair photo_id) detections"
    by (induction detections) auto
  show "filter (\<lambda>r. fst r = photo_id) (object_detections d') = map (Pair photo_id) detections"
    using od old1 new1 by simp
  have old2: "filter (\<lambda>r. os_photo_id r = photo_id \<and> os_class_name r = cn)
               (filter (\<lambda>r. os_photo_id r \<noteq> photo_id) (object_summary d)) = []" for cn
    by (auto simp: filter_empty_conv)
  show "\<forall>cn. filter (\<lambda>r. os_photo_id r = photo_id \<and> os_class_name r = cn) (object_summary d') =
            (if cn \<in> class_name ` set detections
             then [expected_summary photo_id detections cn] else [])"
    using os old2 expected_rows_of_class[OF g, of photo_id] by simp
qed

lemma add_object_detections_empty:
  assumes "add_object_detections e photo_id [] d = (Inr (), d')"
  shows "filter (\<lambda>r. os_photo_id r = photo_id) (object_summary d') = []"
    and "filter (\<lambda>r. fst r = photo_id) (object_detections d') = []"
proof -
  from assms have "object_summary d' =
      filter (\<lambda>r. os_photo_id r \<noteq> photo_id) (object_summary d)"
    and "object_detections d' = filter (\<lambda>r. fst r \<noteq> photo_id) (object_detections d)"
    by (auto simp: add_object_detections_def split: option.splits)
  then show "filter (\<lambda>r. os_photo_id r = photo_id) (object_summary d') = []"
    and "filter (\<lambda>r. fst r = photo_id) (object_detections d') = []"
    by (auto simp: filter_empty_conv)
qed

lemma psi_success:
  assumes "add_photo e p (Some (model_name yp)) (catalog w) = (Inr photo_id, d1)"
    and "yolo e p thr = Inr results"
    and "extract_detections (model_names e) results = Inr detections"
    and "(if detections \<noteq> [] then add_object_detections e photo_id detections d1
          else (Inr (), d1)) = (Inr (), d2)"
    and "(if detect_faces_in_image e (face_processor yp) p \<noteq> []
          then add_face_detections e photo_id (detect_faces_in_image e (face_processor yp) p) d2
          else (Inr (), d2)) = (Inr (), d3)"
  shows "process_single_image e yp p thr w =
           (Inr \<lparr>res_photo_id = photo_id, res_file_path = p,
                 res_detections_count = length detections,
                 res_face_detections_count =
                   length (detect_faces_in_image e (face_processor yp) p),
                 res_detections = detections,
                 res_face_detections = detect_faces_in_image e (face_processor yp) p\<rparr>,
            \<lparr>catalog = d3,
             invocations = invocations w @
               [Invoked_process_single_image p, Invoked_detector p, Invoked_face_encoder p]\<rparr>)"
  using assms
  by (cases "detections = []"; cases "detect_faces_in_image e (face_processor yp) p = []")
     (simp_all add: process_single_image_def Let_def)

lemma psi_success_cases:
  assumes "process_single_image e yp p thr w = (Inr r, w')"
  shows "\<exists>d1 results d2.
           add_photo e p (Some (model_name yp)) (catalog w) = (Inr (res_photo_id r), d1) \<and>
           yolo e p thr = Inr results \<and>
           extract_detections (model_names e) results = Inr (res_detections r) \<and>
           (if res_detections r \<noteq> []
            then add_object_detections e (res_photo_id r) (res_detections r) d1
            else (Inr (), d1)) = (Inr (), d2) \<and>
           res_face_detections r = detect_faces_in_image e (face_processor yp) p \<and>
           (if res_face_detections r \<noteq> []
            then add_face_detections e (res_photo_id r) (res_face_detections r) d2
            else (Inr (), d2)) = (Inr (), catalog w') \<and>
           res_file_path r = p \<and>
           invocations w' = invocations w @
               [Invoked_process_single_image p, Invoked_detector p, Invoked_face_encoder p]"
proof -
  obtain a d1 where ap: "add_photo e p (Some (model_name yp)) (catalog w) = (a, d1)"
    by (cases "add_photo e p (Some (model_name yp)) (catalog w)")
  show ?thesis
  proof (cases a)
    case (Inl err)
    with ap assms show ?thesis by (simp add: process_single_image_def Let_def)
  next
    case (Inr photo_id)
    note pid = this
    show ?thesis
    proof (cases "yolo e p thr")
      case (Inl err)
      with ap pid assms show ?thesis by (simp add: process_single_image_def Let_def)
    next
      case (Inr results)
      note res = this
      show ?thesis
      proof (cases "extract_detections (model_names e) results")
        case (Inl err)
        with ap pid res assms show ?thesis by (simp add: process_single_image_def Let_def)
      next
        case (Inr detections)
        note dets = this
        obtain b d2 where st: "(if detections \<noteq> []
            then add_object_detections e photo_id detections d1 else (Inr (), d1)) = (b, d2)"
          by (cases "(if detections \<noteq> []
            then add_object_detections e photo_id detections d1 else (Inr (), d1))")
        show ?thesis
        proof (cases b)
          case (Inl err)
          with ap pid res dets st assms show ?thesis
            by (cases "detections = []") (simp_all add: process_single_image_def Let_def)
        next
          case (Inr u)
          note ok2 = this
          let ?faces = "detect_faces_in_image e (face_processor yp) p"
          obtain c d3 where sf: "(if ?faces \<noteq> []
              then add_face_detections e photo_id ?faces d2 else (Inr (), d2)) = (c, d3)"
            by (cases "(if ?faces \<noteq> []
              then add_face_detections e photo_id ?faces d2 else (Inr (), d2))")
          show ?thesis
          proof (cases c)
            case (Inl err)
            with ap pid res dets st ok2 sf assms show ?thesis
              by (cases "detections = []"; cases "?faces = []")
                 (simp_all add: process_single_image_def Let_def)
          next
            case (Inr u')
            have st': "(if detections \<noteq> []
                then add_object_detections e photo_id detections d1 else (Inr (), d1)) =
                (Inr (), d2)"
              using st ok2 by simp
            have sf': "(if ?faces \<noteq> []
                then add_face_detections e photo_id ?faces d2 else (Inr (), d2)) = (Inr (), d3)"
              using sf Inr by simp
            from psi_success[OF ap[unfolded pid] res dets st' sf']
            have "process_single_image e yp p thr w =
              (Inr \<lparr>res_photo_id = photo_id, res_file_path = p,
                 res_detections_count = length detections,
                 res_face_detections_count = length ?faces,
                 res_detections = detections,
                 res_face_detections = ?faces\<rparr>,
               \<lparr>catalog = d3,
                invocations = invocations w @
               [Invoked_process_single_image p, Invoked_detector p, Invoked_face_encoder p]\<rparr>)"
              by simp
            with assms have r: "r = \<lparr>res_photo_id = photo_id, res_file_path = p,
                 res_detections_count = length detections,
                 res_face_detections_count = length ?faces,
                 res_detections = detections,
                 res_face_detections = ?faces\<rparr>"
              and w': "w' = \<lparr>catalog = d3,
                invocations = invocations w @
               [Invoked_process_single_image p, Invoked_detector p, Invoked_face_encoder p]\<rparr>"
              by simp_all
            have "add_photo e p (Some (model_name yp)) (catalog w) = (Inr (res_photo_id r), d1) \<and>
               yolo e p thr = Inr results \<and>
               extract_detections (model_names e) results = Inr (res_detections r) \<and>
               (if res_detections r \<noteq> []
                then add_object_detections e (res_photo_id r) (res_detections r) d1
                else (Inr (), d1)) = (Inr (), d2) \<and>
               res_face_detections r = detect_faces_in_image e (face_processor yp) p \<and>
               (if res_face_detections r \<noteq> []
                then add_face_detections e (res_photo_id r) (res_face_detections r) d2
                else (Inr (), d2)) = (Inr (), catalog w') \<and>
               res_file_path r = p \<and>
               invocations w' = invocations w @
                 [Invoked_process_single_image p, Invoked_detector p, Invoked_face_encoder p]"
              unfolding r w' using ap pid res dets st' sf' by (auto split: if_splits)
            then show ?thesis by blast
          qed
        qed
      qed
    qed
  qed
qed

section \<open>What the catalog operations keep\<close>

lemma keeps_photo_refl: "keeps_photo d d p"
  by (simp add: keeps_photo_def split: option.splits)

lemma keeps_photo_trans:
  "keeps_photo d1 d2 p \<Longrightarrow> keeps_photo d2 d3 p \<Longrightarrow> keeps_photo d1 d3 p"
  by (auto simp: keeps_photo_def split: option.splits if_splits)

lemma keeps_photo_same_photos: "photos d' = photos d \<Longrightarrow> keeps_photo d d' p"
  by (simp add: keeps_photo_def photo_of_def split: option.splits)

lemma find_map_same:
  "(\<And>x. P (f x) = P x) \<Longrightarrow> find P (map f xs) = map_option f (find P xs)"
  by (induction xs) auto

lemma find_append_one:
  "find P (xs @ [y]) = (case find P xs of Some x \<Rightarrow> Some x | None \<Rightarrow> if P y then Some y else None)"
  by (induction xs) auto

lemma add_photo_result:
  "add_photo e file_path yolo_model d = (Inr photo_id, d') \<Longrightarrow>
   (case photo_of d file_path of
      Some row \<Rightarrow>
        photo_id = ph_id row \<and>
        photos d' = map (\<lambda>q. if ph_file_path q = file_path
                           then q\<lparr>ph_file_name := basename file_path,
                                  ph_file_size := projr (getsize e file_path),
                                  ph_width := img_width (projr (image_open e file_path)),
                                  ph_height := img_height (projr (image_open e file_path)),
                                  ph_format := img_format (projr (image_open e file_path)),
                                  ph_yolo_model_used := yolo_model\<rparr>
                           else q) (photos d)
    | None \<Rightarrow>
        photo_id = photos_auto_increment d \<and>
        photos d' = photos d @
           [\<lparr>ph_id = photos_auto_increment d, ph_file_path = file_path,
             ph_file_name = basename file_path,
             ph_file_size = projr (getsize e file_path),
             ph_width = img_width (projr (image_open e file_path)),
             ph_height = img_height (projr (image_open e file_path)),
             ph_format = img_format (projr (image_open e file_path)),
             ph_created_at = now e, ph_processed_at = None,
             ph_yolo_model_used = yolo_model\<rparr>]) \<and>
   object_detections d' = object_detections d \<and> object_summary d' = object_summary d \<and>
   face_detections d' = face_detections d \<and> face_summary d' = face_summary d"
  by (auto simp: add_photo_def photo_of_def Let_def split: sum.splits option.splits)

lemma add_photo_failure: "add_photo e file_path yolo_model d = (Inl err, d') \<Longrightarrow> d' = d"
  by (auto simp: add_photo_def Let_def split: sum.splits option.splits)

lemma add_photo_keeps:
  assumes "add_photo e file_path yolo_model d = (x, d')"
  shows "keeps_photo d d' p"
proof (cases x)
  case (Inl err)
  with assms add_photo_failure have "d' = d" by blast
  then show ?thesis by (simp add: keeps_photo_refl)
next
  case (Inr photo_id)
  with assms have a: "add_photo e file_path yolo_model d = (Inr photo_id, d')" by simp
  show ?thesis
  proof (cases "photo_of d file_path")
    case None
    with add_photo_result[OF a] obtain row where
      "photos d' = photos d @ [row]" by auto
    then show ?thesis
      by (auto simp: keeps_photo_def photo_of_def find_append_one split: option.splits)
  next
    case (Some row)
    let ?f = "\<lambda>q. if ph_file_path q = file_path
                           then q\<lparr>ph_file_name := basename file_path,
                                  ph_file_size := projr (getsize e file_path),
                                  ph_width := img_width (projr (image_open e file_path)),
                                  ph_height := img_height (projr (image_open e file_path)),
                                  ph_format := img_format (projr (image_open e file_path)),
                                  ph_yolo_model_used := yolo_model\<rparr>
                           else q"
    from Some add_photo_result[OF a] have ph: "photos d' = map ?f (photos d)" by simp
    have f: "\<And>q. ph_file_path (?f q) = ph_file_path q \<and> ph_id (?f q) = ph_id q \<and>
                   ph_processed_at (?f q) = ph_processed_at q"
      by simp
    have "find (\<lambda>q. ph_file_path q = p) (map ?f (photos d)) =
          map_option ?f (find (\<lambda>q. ph_file_path q = p) (photos d))"
      by (rule find_map_same) simp
    then show ?thesis
      unfolding keeps_photo_def photo_of_def ph
      by (auto split: option.splits)
  qed
qed

lemma add_photo_photo_of:
  assumes a: "add_photo e file_path yolo_model d = (Inr photo_id, d')"
  shows "\<exists>row. photo_of d' file_path = Some row \<and> ph_id row = photo_id"
proof (cases "photo_of d file_path")
  case None
  with add_photo_result[OF a] show ?thesis
    by (auto simp: photo_of_def find_append_one)
next
  case (Some row)
  from add_photo_keeps[OF a, of file_path] add_photo_result[OF a] Some
  show ?thesis by (auto simp: keeps_photo_def split: option.splits)
qed

lemma add_object_detections_frame:
  "add_object_detections e photo_id detections d = (x, d') \<Longrightarrow>
   face_detections d' = face_detections d \<and> face_summary d' = face_summary d \<and>
   exif_data d' = exif_data d \<and>
   (\<exists>f. photos d' = map f (photos d) \<and>
        (\<forall>q. ph_file_path (f q) = ph_file_path q \<and> ph_id (f q) = ph_id q \<and>
             (ph_processed_at q \<noteq> None \<longrightarrow> ph_processed_at (f q) \<noteq> None)))"
proof -
  assume a: "add_object_detections e photo_id detections d = (x, d')"
  let ?f = "\<lambda>p. if ph_id p = photo_id then p\<lparr>ph_processed_at := Some (now e)\<rparr> else p"
  from add_object_detections_result[of detections e photo_id d] a
  have "d' = d \<or> (face_detections d' = face_detections d \<and> face_summary d' = face_summary d \<and>
          exif_data d' = exif_data d \<and> photos d' = map ?f (photos d))"
    by (auto split: option.splits if_splits)
  then show ?thesis
  proof
    assume "d' = d"
    then have "photos d' = map id (photos d)" by simp
    with \<open>d' = d\<close> show ?thesis by (intro conjI exI[of _ id]) auto
  next
    assume r: "face_detections d' = face_detections d \<and> face_summary d' = face_summary d \<and>
          exif_data d' = exif_data d \<and> photos d' = map ?f (photos d)"
    then show ?thesis by (intro conjI exI[of _ ?f]) auto
  qed
qed

lemma add_object_detections_keeps:
  assumes "add_object_detections e photo_id detections d = (x, d')"
  shows "keeps_photo d d' p"
proof -
  from add_object_detections_frame[OF assms] obtain f where
    ph: "photos d' = map f (photos d)"
    and f: "\<And>q. ph_file_path (f q) = ph_file_path q \<and> ph_id (f q) = ph_id q \<and>
             (ph_processed_at q \<noteq> None \<longrightarrow> ph_processed_at (f q) \<noteq> None)"
    by blast
  have "find (\<lambda>q. ph_file_path q = p) (map f (photos d)) =
        map_option f (find (\<lambda>q. ph_file_path q = p) (photos d))"
    by (rule find_map_same) (simp add: f)
  then show ?thesis
    using ph f by (auto simp: keeps_photo_def photo_of_def split: option.splits)
qed

lemma add_face_detections_frame:
  "add_face_detections e photo_id faces d = (x, d') \<Longrightarrow>
   photos d' = photos d \<and> object_detections d' = object_detections d \<and>
   object_summary d' = object_summary d \<and> exif_data d' = exif_data d"
  by (auto simp: add_face_detections_def Let_def split: option.splits if_splits)

lemma add_face_detections_summary:
  "add_face_detections e photo_id faces d = (Inr (), d') \<Longrightarrow>
   filter (\<lambda>r. fs_photo_id r = photo_id) (face_summary d') =
     [\<lparr>fs_photo_id = photo_id, fs_total_faces = int (length faces),
       fs_recognized_faces = int (length (filter (\<lambda>f. truthy_name (fd_recognized_name f)) faces)),
       fs_unrecognized_faces =
         int (length faces) -
         int (length (filter (\<lambda>f. truthy_name (fd_recognized_name f)) faces))\<rparr>]"
proof -
  have old: "filter (\<lambda>r. fs_photo_id r = photo_id)
               (filter (\<lambda>r. fs_photo_id r \<noteq> photo_id) (face_summary d)) = []"
    by (auto simp: filter_empty_conv)
  assume "add_face_detections e photo_id faces d = (Inr (), d')"
  then have "face_summary d' = filter (\<lambda>r. fs_photo_id r \<noteq> photo_id) (face_summary d) @
     [\<lparr>fs_photo_id = photo_id, fs_total_faces = int (length faces),
       fs_recognized_faces = int (length (filter (\<lambda>f. truthy_name (fd_recognized_name f)) faces)),
       fs_unrecognized_faces =
         int (length faces) -
         int (length (filter (\<lambda>f. truthy_name (fd_recognized_name f)) faces))\<rparr>]"
    by (auto simp: add_face_detections_def Let_def split: option.splits if_splits)
  with old show ?thesis by simp
qed


lemma add_face_detections_keeps:
  "add_face_detections e photo_id faces d = (x, d') \<Longrightarrow> keeps_photo d d' p"
  using add_face_detections_frame keeps_photo_same_photos by blast

lemma store_detections_keeps:
  "(if detections \<noteq> [] then add_object_detections e photo_id detections d1
    else (Inr (), d1)) = (b, d2) \<Longrightarrow> keeps_photo d1 d2 q"
  by (cases "detections = []") (auto intro: add_object_detections_keeps keeps_photo_refl)

lemma store_faces_keeps:
  "(if faces \<noteq> [] then add_face_detections e photo_id faces d2
    else (Inr (), d2)) = (c, d3) \<Longrightarrow> keeps_photo d2 d3 q"
  by (cases "faces = []") (auto intro: add_face_detections_keeps keeps_photo_refl)

lemma psi_general:
  "\<exists>d' new. catalog (snd (process_single_image e yp p thr w)) = d' \<and>
      invocations (snd (process_single_image e yp p thr w)) = invocations w @ new \<and>
      (\<forall>q. keeps_photo (catalog w) d' q) \<and> (\<forall>i \<in> set new. invocation_path i = p)"
proof -
  let ?psi = "process_single_image e yp p thr w"
  obtain a d1 where ap: "add_photo e p (Some (model_name yp)) (catalog w) = (a, d1)"
    by (cases "add_photo e p (Some (model_name yp)) (catalog w)")
  have k1: "\<forall>q. keeps_photo (catalog w) d1 q" using add_photo_keeps[OF ap] by blast
  show ?thesis
  proof (cases a)
    case (Inl err)
    with ap have "catalog (snd ?psi) = d1"
      "invocations (snd ?psi) = invocations w @ [Invoked_process_single_image p]"
      by (simp_all add: process_single_image_def Let_def)
    with k1 show ?thesis by auto
  next
    case (Inr photo_id)
    note pid = this
    have early: ?thesis
      if "catalog (snd ?psi) = d1"
         "invocations (snd ?psi) =
            invocations w @ [Invoked_process_single_image p, Invoked_detector p]"
      using that k1 by auto
    show ?thesis
    proof (cases "yolo e p thr")
      case (Inl err)
      with ap pid show ?thesis
        by (intro early) (simp_all add: process_single_image_def Let_def)
    next
      case (Inr results)
      note res = this
      show ?thesis
      proof (cases "extract_detections (model_names e) results")
        case (Inl err)
        with ap pid res show ?thesis
          by (intro early) (simp_all add: process_single_image_def Let_def)
      next
        case (Inr detections)
        note dets = this
        obtain b d2 where st: "(if detections \<noteq> []
            then add_object_detections e photo_id detections d1 else (Inr (), d1)) = (b, d2)"
          by (cases "(if detections \<noteq> []
            then add_object_detections e photo_id detections d1 else (Inr (), d1))")
        have k2: "\<forall>q. keeps_photo (catalog w) d2 q"
          using k1 store_detections_keeps[OF st] keeps_photo_trans by blast
        show ?thesis
        proof (cases b)
          case (Inl err)
          with ap pid res dets st have "catalog (snd ?psi) = d2"
            "invocations (snd ?psi) =
               invocations w @ [Invoked_process_single_image p, Invoked_detector p]"
            by (cases "detections = []"; simp add: process_single_image_def Let_def)+
          with k2 show ?thesis by auto
        next
          case (Inr u)
          note ok2 = this
          let ?faces = "detect_faces_in_image e (face_processor yp) p"
          obtain c d3 where sf: "(if ?faces \<noteq> []
              then add_face_detections e photo_id ?faces d2 else (Inr (), d2)) = (c, d3)"
            by (cases "(if ?faces \<noteq> []
              then add_face_detections e photo_id ?faces d2 else (Inr (), d2))")
          have k3: "\<forall>q. keeps_photo (catalog w) d3 q"
            using k2 store_faces_keeps[OF sf] keeps_photo_trans by blast
          from ap pid res dets st ok2 sf have "catalog (snd ?psi) = d3"
            "invocations (snd ?psi) =
               invocations w @ [Invoked_process_single_image p, Invoked_detector p,
                                Invoked_face_encoder p]"
            by (cases "detections = []"; cases "?faces = []"; cases c;
                simp add: process_single_image_def Let_def)+
          with k3 show ?thesis by auto
        qed
      qed
    qed
  qed
qed

lemma store_detections_frame:
  "(if detections \<noteq> [] then add_object_detections e photo_id detections d1
    else (Inr (), d1)) = (b, d2) \<Longrightarrow>
   face_detections d2 = face_detections d1 \<and> face_summary d2 = face_summary d1 \<and>
   exif_data d2 = exif_data d1"
  by (cases "detections = []") (auto dest: add_object_detections_frame)

lemma store_faces_frame:
  "(if faces \<noteq> [] then add_face_detections e photo_id faces d2
    else (Inr (), d2)) = (c, d3) \<Longrightarrow>
   photos d3 = photos d2 \<and> object_detections d3 = object_detections d2 \<and>
   object_summary d3 = object_summary d2 \<and> exif_data d3 = exif_data d2"
  by (cases "faces = []") (auto dest: add_face_detections_frame)

lemma add_face_detections_rows:
  "add_face_detections e photo_id faces d = (Inr (), d') \<Longrightarrow>
   filter (\<lambda>r. fst r = photo_id) (face_detections d') = map (Pair photo_id) faces"
proof -
  have old: "filter (\<lambda>r. fst r = photo_id)
               (filter (\<lambda>r. fst r \<noteq> photo_id) (face_detections d)) = []"
    by (auto simp: filter_empty_conv)
  have new: "filter (\<lambda>r. fst r = photo_id) (map (Pair photo_id) faces) = map (Pair photo_id) faces"
    by (induction faces) auto
  assume "add_face_detections e photo_id faces d = (Inr (), d')"
  then have "face_detections d' =
       filter (\<lambda>r. fst r \<noteq> photo_id) (face_detections d) @ map (Pair photo_id) faces"
    by (auto simp: add_face_detections_def Let_def split: option.splits if_splits)
  with old new show ?thesis by simp
qed

section \<open>The example runs\<close>

lemma example_extract_detections:
  "extract_detections example_names [Some example_boxes] = Inr example_detections"
  by (simp add: example_names_def example_boxes_def example_detections_def)

lemma example_add_photo:
  "add_photo example_env ''photos/a.jpg'' (Some ''yolov8n.pt'') example_db =
     (Inr 1, example_db)"
  by (simp add: add_photo_def extract_exif_data_def example_env_def example_db_def
      example_photo_def basename_def Let_def)

lemma example_detect_faces:
  "detect_faces_in_image example_env example_face_processor ''photos/a.jpg'' =
     [\<lparr>fd_face_encoding = [0], fd_location_top = 10, fd_location_right = 60,
       fd_location_bottom = 60, fd_location_left = 10, fd_confidence = 1,
       fd_recognized_name = Some ''bob'', fd_recognized_confidence = Some (7/10)\<rparr>]"
  by (simp add: detect_faces_in_image_def example_env_def example_face_processor_def
      example_known_faces_def set_known_faces_def new_face_processor_def recognize_def
      compare_faces_def face_distance_def l1_distance_def argmin_def getitem_def)

lemma ex_add: "add_photo example_env ''photos/a.jpg'' (Some ''yolov8n.pt'') empty_db =
   (Inr 1, empty_db\<lparr>photos := [photo_A None], photos_auto_increment := 2\<rparr>)"
  by (simp add: add_photo_def extract_exif_data_def example_env_def empty_db_def basename_def
      Let_def photo_A_def)

lemma ex_group: "group_detections example_detections ([], []) =
    Inr ([(''cat'', 2), (''dog'', 1)], [(''cat'', [9/10, 7/10]), (''dog'', [4/5])])"
  by (simp add: example_detections_def dict_contains_def dict_getitem_def Let_def)

lemma ex_rows: "summary_rows 1 example_detections [(''cat'', 2), (''dog'', 1)]
     [(''cat'', [9/10, 7/10]), (''dog'', [4/5])] =
   Inr [\<lparr>os_photo_id = 1, os_class_name = ''cat'', os_class_id = 15, os_total_count = 2,
          os_avg_confidence = 4/5, os_max_confidence = 9/10\<rparr>,
         \<lparr>os_photo_id = 1, os_class_name = ''dog'', os_class_id = 16, os_total_count = 1,
          os_avg_confidence = 4/5, os_max_confidence = 4/5\<rparr>]"
  by (simp add: example_detections_def dict_getitem_def py_max_def py_sum_def first_class_id_def)

lemma ex_store:
  "add_object_detections example_env 1 example_detections
     (empty_db\<lparr>photos := [photo_A None], photos_auto_increment := 2\<rparr>) =
   (Inr (),
    empty_db\<lparr>photos := [photo_A (Some 1700000000)], photos_auto_increment := 2,
      object_detections := map (Pair 1) example_detections,
      object_summary :=
        [\<lparr>os_photo_id = 1, os_class_name = ''cat'', os_class_id = 15, os_total_count = 2,
          os_avg_confidence = 4/5, os_max_confidence = 9/10\<rparr>,
         \<lparr>os_photo_id = 1, os_class_name = ''dog'', os_class_id = 16, os_total_count = 1,
          os_avg_confidence = 4/5, os_max_confidence = 4/5\<rparr>]\<rparr>)"
proof -
  have e: "db_fault example_env = (\<lambda>c. None)" "now example_env = 1700000000"
    by (simp_all add: example_env_def)
  have n: "example_detections \<noteq> []" by (simp add: example_detections_def)
  show ?thesis
    by (simp add: add_object_detections_def ex_group e n ex_rows empty_db_def photo_A_def
        del: One_nat_def summary_rows.simps group_detections.simps)
qed

lemma ex_faces:
  "add_face_detections example_env 1 example_faces
    (empty_db\<lparr>photos := [photo_A (Some 1700000000)], photos_auto_increment := 2,
      object_detections := map (Pair 1) example_detections,
      object_summary :=
        [\<lparr>os_photo_id = 1, os_class_name = ''cat'', os_class_id = 15, os_total_count = 2,
          os_avg_confidence = 4/5, os_max_confidence = 9/10\<rparr>,
         \<lparr>os_photo_id = 1, os_class_name = ''dog'', os_class_id = 16, os_total_count = 1,
          os_avg_confidence = 4/5, os_max_confidence = 4/5\<rparr>]\<rparr>) = (Inr (), db_after_A)"
proof -
  have e: "db_fault example_env = (\<lambda>c. None)"
    by (simp_all add: example_env_def)
  have fn: "length example_faces = 1"
    "filter (\<lambda>f. truthy_name (fd_recognized_name f)) example_faces = example_faces"
    by (simp_all add: example_faces_def truthy_name_def)
  show ?thesis
    unfolding add_face_detections_def
    by (simp add: e fn empty_db_def photo_A_def db_after_A_def Let_def del: One_nat_def)
qed

lemma run_A:
  "process_single_image example_env example_processor ''photos/a.jpg'' (1/4) empty_world =
     (Inr \<lparr>res_photo_id = 1, res_file_path = ''photos/a.jpg'', res_detections_count = 3,
           res_face_detections_count = 1, res_detections = example_detections,
           res_face_detections = example_faces\<rparr>, world_after_A)"
proof -
  have a: "add_photo example_env ''photos/a.jpg'' (Some (model_name example_processor))
             (catalog empty_world) =
           (Inr 1, empty_db\<lparr>photos := [photo_A None], photos_auto_increment := 2\<rparr>)"
    using ex_add by (simp add: example_processor_def empty_world_def)
  have y: "yolo example_env ''photos/a.jpg'' (1/4) = Inr [Some example_boxes]"
    by (simp add: example_env_def)
  have x: "extract_detections (model_names example_env) [Some example_boxes] = Inr example_detections"
    using example_extract_detections by (simp add: example_env_def)
  have n: "example_detections \<noteq> []" "length example_detections = 3"
    by (simp_all add: example_detections_def)
  have f: "detect_faces_in_image example_env (face_processor example_processor) ''photos/a.jpg''
            = example_faces"
    by (simp add: example_detect_faces example_processor_def example_faces_def)
  have fn: "example_faces \<noteq> []" "length example_faces = 1"
    by (simp_all add: example_faces_def)
  have s: "(if example_detections \<noteq> []
            then add_object_detections example_env 1 example_detections
                   (empty_db\<lparr>photos := [photo_A None], photos_auto_increment := 2\<rparr>)
            else (Inr (), empty_db\<lparr>photos := [photo_A None], photos_auto_increment := 2\<rparr>)) =
           (Inr (), empty_db\<lparr>photos := [photo_A (Some 1700000000)], photos_auto_increment := 2,
      object_detections := map (Pair 1) example_detections,
      object_summary :=
        [\<lparr>os_photo_id = 1, os_class_name = ''cat'', os_class_id = 15, os_total_count = 2,
          os_avg_confidence = 4/5, os_max_confidence = 9/10\<rparr>,
         \<lparr>os_photo_id = 1, os_class_name = ''dog'', os_class_id = 16, os_total_count = 1,
          os_avg_confidence = 4/5, os_max_confidence = 4/5\<rparr>]\<rparr>)"
    using n ex_store by simp
  have sf: "(if detect_faces_in_image example_env (face_processor example_processor)
                 ''photos/a.jpg'' \<noteq> []
          then add_face_detections example_env 1
                 (detect_faces_in_image example_env (face_processor example_processor)
                    ''photos/a.jpg'')
                 (empty_db\<lparr>photos := [photo_A (Some 1700000000)], photos_auto_increment := 2,
      object_detections := map (Pair 1) example_detections,
      object_summary :=
        [\<lparr>os_photo_id = 1, os_class_name = ''cat'', os_class_id = 15, os_total_count = 2,
          os_avg_confidence = 4/5, os_max_confidence = 9/10\<rparr>,
         \<lparr>os_photo_id = 1, os_class_name = ''dog'', os_class_id = 16, os_total_count = 1,
          os_avg_confidence = 4/5, os_max_confidence = 4/5\<rparr>]\<rparr>)
          else (Inr (), (empty_db\<lparr>photos := [photo_A (Some 1700000000)], photos_auto_increment := 2,
      object_detections := map (Pair 1) example_detections,
      object_summary :=
        [\<lparr>os_photo_id = 1, os_class_name = ''cat'', os_class_id = 15, os_total_count = 2,
          os_avg_confidence = 4/5, os_max_confidence = 9/10\<rparr>,
         \<lparr>os_photo_id = 1, os_class_name = ''dog'', os_class_id = 16, os_total_count = 1,
          os_avg_confidence = 4/5, os_max_confidence = 4/5\<rparr>]\<rparr>))) = (Inr (), db_after_A)"
    unfolding f using fn ex_faces by simp
  from psi_success[OF a y x s sf] show ?thesis
    by (simp add: f n fn world_after_A_def empty_world_def)
qed

lemma add_face_detections_succeeds:
  "db_fault e (Call_add_face_detections photo_id) = None \<Longrightarrow>
   photo_id \<in> ph_id ` set (photos d) \<Longrightarrow>
   fst (add_face_detections e photo_id faces d) = Inr ()"
  by (simp add: add_face_detections_def Let_def)

lemma add_object_detections_ids:
  "ph_id ` set (photos (snd (add_object_detections e photo_id detections d))) =
   ph_id ` set (photos d)"
proof -
  obtain x d' where a: "add_object_detections e photo_id detections d = (x, d')"
    by (cases "add_object_detections e photo_id detections d")
  from add_object_detections_frame[OF a] obtain f where
    "photos d' = map f (photos d)" "\<forall>q. ph_id (f q) = ph_id q" by blast
  then have "ph_id ` set (photos d') = ph_id ` set (photos d)"
    by (simp add: image_image)
  with a show ?thesis by simp
qed

lemma reprocess_add_photo:
  assumes "getsize e = getsize example_env" "image_open e = image_open example_env"
    "getexif e = getexif example_env" "db_fault e = db_fault example_env"
  shows "add_photo e ''photos/a.jpg'' (Some (model_name example_processor))
           (catalog world_after_A) = (Inr 1, db_after_A)"
  by (simp add: add_photo_def extract_exif_data_def assms example_env_def
      example_processor_def world_after_A_def db_after_A_def basename_def Let_def)

lemma run_nothing:
  "process_single_image example_env_nothing example_processor ''photos/a.jpg'' (1/4)
     world_after_A =
   (Inr \<lparr>res_photo_id = 1, res_file_path = ''photos/a.jpg'', res_detections_count = 0,
         res_face_detections_count = 0, res_detections = [], res_face_detections = []\<rparr>,
    \<lparr>catalog = db_after_A,
     invocations = invocations world_after_A @
       [Invoked_process_single_image ''photos/a.jpg'', Invoked_detector ''photos/a.jpg'',
        Invoked_face_encoder ''photos/a.jpg'']\<rparr>)"
proof -
  let ?e = example_env_nothing
  have a: "add_photo ?e ''photos/a.jpg'' (Some (model_name example_processor))
             (catalog world_after_A) = (Inr 1, db_after_A)"
    by (rule reprocess_add_photo) (simp_all add: example_env_nothing_def)
  have y: "yolo ?e ''photos/a.jpg'' (1/4) = Inr [Some []]"
    by (simp add: example_env_nothing_def)
  have x: "extract_detections (model_names ?e) [Some []] = Inr []" by simp
  have f: "detect_faces_in_image ?e (face_processor example_processor) ''photos/a.jpg'' = []"
    by (simp add: detect_faces_in_image_def example_env_nothing_def example_env_def)
  have s: "(if ([] :: detection list) \<noteq> []
            then add_object_detections ?e 1 [] db_after_A else (Inr (), db_after_A)) =
           (Inr (), db_after_A)"
    by simp
  have sf: "(if detect_faces_in_image ?e (face_processor example_processor) ''photos/a.jpg'' \<noteq> []
             then add_face_detections ?e 1
                    (detect_faces_in_image ?e (face_processor example_processor) ''photos/a.jpg'')
                    db_after_A
             else (Inr (), db_after_A)) = (Inr (), db_after_A)"
    by (simp add: f)
  from psi_success[OF a y x s sf] show ?thesis by (simp add: f)
qed

lemma run_bird:
  "\<exists>w2. process_single_image example_env_bird example_processor ''photos/a.jpg'' (1/4)
          world_after_A =
        (Inr \<lparr>res_photo_id = 1, res_file_path = ''photos/a.jpg'', res_detections_count = 1,
              res_face_detections_count = 1,
              res_detections = [\<lparr>class_name = ''bird'', class_id = 14, confidence = 1/2\<rparr>],
              res_face_detections = example_faces\<rparr>, w2)"
proof -
  let ?e = example_env_bird
  let ?B = "[\<lparr>class_name = ''bird'', class_id = 14, confidence = 1/2\<rparr>]"
  let ?d2 = "snd (add_object_detections ?e 1 ?B db_after_A)"
  let ?d3 = "snd (add_face_detections ?e 1 example_faces ?d2)"
  have a: "add_photo ?e ''photos/a.jpg'' (Some (model_name example_processor))
             (catalog world_after_A) = (Inr 1, db_after_A)"
    by (rule reprocess_add_photo) (simp_all add: example_env_bird_def)
  have y: "yolo ?e ''photos/a.jpg'' (1/4) = Inr [Some [\<lparr>cls = 14, conf = 1/2\<rparr>]]"
    by (simp add: example_env_bird_def)
  have x: "extract_detections (model_names ?e) [Some [\<lparr>cls = 14, conf = 1/2\<rparr>]] = Inr ?B"
    by (simp add: example_env_bird_def example_env_def example_names_def)
  have f: "detect_faces_in_image ?e (face_processor example_processor) ''photos/a.jpg'' =
             example_faces"
    by (simp add: detect_faces_in_image_def example_env_bird_def example_env_def
        example_processor_def example_face_processor_def example_faces_def
        example_known_faces_def set_known_faces_def new_face_processor_def recognize_def
        compare_faces_def face_distance_def l1_distance_def argmin_def getitem_def)
  have nf: "db_fault ?e = (\<lambda>c. None)" by (simp add: example_env_bird_def example_env_def)
  have ids: "(1::nat) \<in> ph_id ` set (photos db_after_A)" by (simp add: db_after_A_def)
  have "fst (add_object_detections ?e 1 ?B db_after_A) = Inr ()"
    by (rule add_object_detections_succeeds) (use ids in \<open>simp_all add: nf\<close>)
  then have s: "(if ?B \<noteq> [] then add_object_detections ?e 1 ?B db_after_A
                 else (Inr (), db_after_A)) = (Inr (), ?d2)"
    by (simp add: prod_eq_iff)
  have "fst (add_face_detections ?e 1 example_faces ?d2) = Inr ()"
    by (rule add_face_detections_succeeds)
       (use ids in \<open>simp_all add: nf add_object_detections_ids\<close>)
  then have sf: "(if detect_faces_in_image ?e (face_processor example_processor)
                       ''photos/a.jpg'' \<noteq> []
             then add_face_detections ?e 1
                    (detect_faces_in_image ?e (face_processor example_processor) ''photos/a.jpg'')
                    ?d2
             else (Inr (), ?d2)) = (Inr (), ?d3)"
    by (simp add: f prod_eq_iff example_faces_def)
  from psi_success[OF a y x s sf] show ?thesis by (simp add: f example_faces_def)
qed

lemma example_upper:
  "upper ''.jpg'' = ''.JPG''" "upper ''.jpeg'' = ''.JPEG''" "upper ''.png'' = ''.PNG''"
  "upper ''.bmp'' = ''.BMP''" "upper ''.tiff'' = ''.TIFF''"
  by code_simp+

lemma example_globs:
  "posix_glob example_files ''photos/**/*.jpg'' = [''photos/a.jpg'']"
  "posix_glob example_files ''photos/**/*.JPG'' = [''photos/sub/c.JPG'']"
  "posix_glob example_files ''photos/**/*.jpeg'' = []"
  "posix_glob example_files ''photos/**/*.JPEG'' = []"
  "posix_glob example_files ''photos/**/*.png'' = [''photos/b.png'']"
  "posix_glob example_files ''photos/**/*.PNG'' = []"
  "posix_glob example_files ''photos/**/*.bmp'' = []"
  "posix_glob example_files ''photos/**/*.BMP'' = []"
  "posix_glob example_files ''photos/**/*.tiff'' = []"
  "posix_glob example_files ''photos/**/*.TIFF'' = []"
  by (simp_all add: posix_glob_def example_files_def component_match_def is_hidden_def)

lemma example_crawl:
  assumes "glob e = posix_glob example_files"
  shows "find_image_files e ''photos'' None =
           [''photos/a.jpg'', ''photos/b.png'', ''photos/sub/c.JPG'']"
proof -
  have "found_files e ''photos'' default_file_extensions =
      [''photos/a.jpg'', ''photos/sub/c.JPG'', ''photos/b.png'']"
    by (simp add: found_files_def default_file_extensions_def assms os_path_join_def
        example_upper example_globs)
  then show ?thesis by (simp add: find_image_files_def)
qed

section \<open>The batch loop\<close>

lemma processed_in_kept: "keeps_photo d d' p \<Longrightarrow> processed_in d p \<Longrightarrow> processed_in d' p"
  by (auto simp: keeps_photo_def processed_in_def split: option.splits if_splits)

lemma is_image_already_processed_iff:
  "is_image_already_processed e p d \<longleftrightarrow>
     db_fault e (Call_is_image_already_processed p) = None \<and> processed_in d p"
  by (auto simp: is_image_already_processed_def processed_in_def photo_of_def
      split: option.splits)

lemma psi_result_path:
  "process_single_image e yp p thr w = (Inr r, w') \<Longrightarrow> res_file_path r = p"
  using psi_success_cases by blast

lemma process_file_path: "result_file_path (fst (process_file e yp thr force p w)) = p"
proof (cases "\<not> force \<and> is_image_already_processed e p (catalog w)")
  case True
  then show ?thesis by (simp add: process_file_def)
next
  case False
  obtain x w' where psi: "process_single_image e yp p thr w = (x, w')"
    by (cases "process_single_image e yp p thr w")
  show ?thesis
  proof (cases x)
    case (Inl err)
    with False psi show ?thesis by (simp add: process_file_def)
  next
    case (Inr r)
    with psi psi_result_path have "res_file_path r = p" by blast
    with False psi Inr show ?thesis by (simp add: process_file_def)
  qed
qed

lemma process_files_Cons:
  "process_files e yp thr force (p # rest) w =
     (fst (process_file e yp thr force p w) #
        fst (process_files e yp thr force rest (snd (process_file e yp thr force p w))),
      snd (process_files e yp thr force rest (snd (process_file e yp thr force p w))))"
  by (simp split: prod.splits)

lemma process_files_paths:
  "map result_file_path (fst (process_files e yp thr force files w)) = files"
proof (induction files arbitrary: w)
  case Nil
  then show ?case by simp
next
  case (Cons p rest)
  show ?case
    unfolding process_files_Cons using Cons.IH by (simp add: process_file_path)
qed




lemma process_file_skips:
  assumes "\<not> force" "db_fault e (Call_is_image_already_processed p) = None"
    "processed_in (catalog w) p"
  shows "process_file e yp thr force p w = (Skipped p, w)"
  using assms by (simp add: process_file_def is_image_already_processed_iff)

lemma process_file_general:
  "\<exists>new. invocations (snd (process_file e yp thr force q w)) = invocations w @ new \<and>
     (\<forall>i \<in> set new. invocation_path i = q) \<and>
     (\<forall>p. keeps_photo (catalog w) (catalog (snd (process_file e yp thr force q w))) p)"
proof (cases "\<not> force \<and> is_image_already_processed e q (catalog w)")
  case True
  then have "snd (process_file e yp thr force q w) = w" by (simp add: process_file_def)
  then show ?thesis by (simp add: keeps_photo_refl)
next
  case False
  then have "snd (process_file e yp thr force q w) = snd (process_single_image e yp q thr w)"
    by (auto simp: process_file_def split: prod.splits sum.splits)
  moreover from psi_general[of e yp q thr w] obtain new where
    "invocations (snd (process_single_image e yp q thr w)) = invocations w @ new"
    "\<forall>p. keeps_photo (catalog w) (catalog (snd (process_single_image e yp q thr w))) p"
    "\<forall>i \<in> set new. invocation_path i = q"
    by blast
  ultimately show ?thesis by auto
qed

lemma skip_batch:
  assumes nf: "\<not> force" and ok: "db_fault e (Call_is_image_already_processed p) = None"
  shows "processed_in (catalog w) p \<Longrightarrow>
     (\<forall>r \<in> set (fst (process_files e yp thr force files w)).
        result_file_path r = p \<longrightarrow> r = Skipped p) \<and>
     (\<exists>new. invocations (snd (process_files e yp thr force files w)) = invocations w @ new \<and>
        (\<forall>i \<in> set new. invocation_path i \<noteq> p))"
proof (induction files arbitrary: w)
  case Nil
  then show ?case by simp
next
  case (Cons q rest)
  let ?r = "fst (process_file e yp thr force q w)"
  let ?w = "snd (process_file e yp thr force q w)"
  from process_file_general[of e yp thr force q w] obtain new1 where
    inv1: "invocations ?w = invocations w @ new1"
    and paths1: "\<forall>i \<in> set new1. invocation_path i = q"
    and keeps: "keeps_photo (catalog w) (catalog ?w) p"
    by blast
  have pin: "processed_in (catalog ?w) p"
    using processed_in_kept[OF keeps Cons.prems] .
  from Cons.IH[OF pin] obtain new2 where
    rest: "\<forall>r \<in> set (fst (process_files e yp thr force rest ?w)).
             result_file_path r = p \<longrightarrow> r = Skipped p"
    and inv2: "invocations (snd (process_files e yp thr force rest ?w)) =
                 invocations ?w @ new2"
    and paths2: "\<forall>i \<in> set new2. invocation_path i \<noteq> p"
    by blast
  have head: "result_file_path ?r = p \<longrightarrow> ?r = Skipped p"
  proof
    assume "result_file_path ?r = p"
    then have "q = p" by (simp add: process_file_path)
    with process_file_skips[OF nf ok Cons.prems] show "?r = Skipped p" by simp
  qed
  have new1p: "\<forall>i \<in> set new1. invocation_path i \<noteq> p"
  proof (cases "q = p")
    case True
    with process_file_skips[OF nf ok Cons.prems] have "?w = w" by simp
    with inv1 have "new1 = []" by simp
    then show ?thesis by simp
  next
    case False
    with paths1 show ?thesis by simp
  qed
  have "invocations (snd (process_files e yp thr force (q # rest) w)) =
          invocations w @ (new1 @ new2)"
    unfolding process_files_Cons using inv1 inv2 by simp
  moreover have "\<forall>i \<in> set (new1 @ new2). invocation_path i \<noteq> p"
    using new1p paths2 by auto
  moreover have "\<forall>r \<in> set (fst (process_files e yp thr force (q # rest) w)).
        result_file_path r = p \<longrightarrow> r = Skipped p"
    unfolding process_files_Cons using head rest by simp
  ultimately show ?case by blast
qed



section \<open>Reprocessing a photo\<close>

lemma same_photo_on_reprocessing:
  assumes first: "process_single_image e1 yp p thr w0 = (Inr r1, w1)"
    and second: "process_single_image e2 yp p thr w1 = (Inr r2, w2)"
  shows "res_photo_id r2 = res_photo_id r1"
proof -
  from psi_success_cases[OF first] obtain d1 d2 where
    a1: "add_photo e1 p (Some (model_name yp)) (catalog w0) = (Inr (res_photo_id r1), d1)"
    and s1: "(if res_detections r1 \<noteq> []
            then add_object_detections e1 (res_photo_id r1) (res_detections r1) d1
            else (Inr (), d1)) = (Inr (), d2)"
    and f1: "(if res_face_detections r1 \<noteq> []
            then add_face_detections e1 (res_photo_id r1) (res_face_detections r1) d2
            else (Inr (), d2)) = (Inr (), catalog w1)"
    by blast
  from add_photo_photo_of[OF a1] obtain row where
    row: "photo_of d1 p = Some row" "ph_id row = res_photo_id r1" by blast
  have "keeps_photo d1 (catalog w1) p"
    using store_detections_keeps[OF s1] store_faces_keeps[OF f1] keeps_photo_trans by blast
  with row obtain row' where
    row': "photo_of (catalog w1) p = Some row'" "ph_id row' = res_photo_id r1"
    by (auto simp: keeps_photo_def split: option.splits)
  from psi_success_cases[OF second] obtain d1' where
    a2: "add_photo e2 p (Some (model_name yp)) (catalog w1) = (Inr (res_photo_id r2), d1')"
    by blast
  from add_photo_result[OF a2] row' show ?thesis by simp
qed

text \<open>
  Claim C2, as the code has it. A photo is processed with the detections A and then
  again, whatever the first run left. The second run works on the same photo id. When
  its detections B are not empty, the rows of \<open>object_detections\<close> and of
  \<open>object_summary\<close> of the photo are those of B alone; when B is empty,
  \<open>add_object_detections\<close> is not called and both tables are as the first run left them.
  Likewise for the faces: when the second run finds faces, the rows of
  \<open>face_detections\<close> and the one row of \<open>face_summary\<close> of the photo are those of the
  second run; when it finds none, both tables are as they were. The catalog operation
  itself, \<open>add_object_detections\<close> with an empty list, leaves the photo without any row
  in either table.
\<close>

theorem reprocessing_replaces_summaries:
  assumes first: "process_single_image e1 yp p thr w0 = (Inr r1, w1)"
    and second: "process_single_image e2 yp p thr w1 = (Inr r2, w2)"
  shows "res_photo_id r2 = res_photo_id r1 \<and>
    (if res_detections r2 \<noteq> [] then
       filter (\<lambda>r. fst r = res_photo_id r2) (object_detections (catalog w2)) =
         map (Pair (res_photo_id r2)) (res_detections r2) \<and>
       (\<forall>cn. filter (\<lambda>r. os_photo_id r = res_photo_id r2 \<and> os_class_name r = cn)
               (object_summary (catalog w2)) =
             (if cn \<in> class_name ` set (res_detections r2)
              then [expected_summary (res_photo_id r2) (res_detections r2) cn] else []))
     else object_detections (catalog w2) = object_detections (catalog w1) \<and>
          object_summary (catalog w2) = object_summary (catalog w1)) \<and>
    (if res_face_detections r2 \<noteq> [] then
       filter (\<lambda>r. fst r = res_photo_id r2) (face_detections (catalog w2)) =
         map (Pair (res_photo_id r2)) (res_face_detections r2) \<and>
       filter (\<lambda>r. fs_photo_id r = res_photo_id r2) (face_summary (catalog w2)) =
         [\<lparr>fs_photo_id = res_photo_id r2,
           fs_total_faces = int (length (res_face_detections r2)),
           fs_recognized_faces =
             int (length (filter (\<lambda>f. truthy_name (fd_recognized_name f))
                            (res_face_detections r2))),
           fs_unrecognized_faces =
             int (length (res_face_detections r2)) -
             int (length (filter (\<lambda>f. truthy_name (fd_recognized_name f))
                            (res_face_detections r2)))\<rparr>]
     else face_detections (catalog w2) = face_detections (catalog w1) \<and>
          face_summary (catalog w2) = face_summary (catalog w1)) \<and>
    (\<forall>e photo_id d d'. add_object_detections e photo_id [] d = (Inr (), d') \<longrightarrow>
       filter (\<lambda>r. os_photo_id r = photo_id) (object_summary d') = [] \<and>
       filter (\<lambda>r. fst r = photo_id) (object_detections d') = [])"
proof -
  let ?pid = "res_photo_id r2" and ?B = "res_detections r2" and ?F = "res_face_detections r2"
  from psi_success_cases[OF second] obtain d1 d2 where
    a: "add_photo e2 p (Some (model_name yp)) (catalog w1) = (Inr ?pid, d1)"
    and s: "(if ?B \<noteq> [] then add_object_detections e2 ?pid ?B d1 else (Inr (), d1)) =
            (Inr (), d2)"
    and f: "(if ?F \<noteq> [] then add_face_detections e2 ?pid ?F d2 else (Inr (), d2)) =
            (Inr (), catalog w2)"
    by blast
  from add_photo_result[OF a] have
    fr1: "object_detections d1 = object_detections (catalog w1)"
         "object_summary d1 = object_summary (catalog w1)"
         "face_detections d1 = face_detections (catalog w1)"
         "face_summary d1 = face_summary (catalog w1)"
    by simp_all
  have fr3: "object_detections (catalog w2) = object_detections d2"
            "object_summary (catalog w2) = object_summary d2"
    using store_faces_frame[OF f] by simp_all
  have fr2: "face_detections d2 = face_detections d1" "face_summary d2 = face_summary d1"
    using store_detections_frame[OF s] by simp_all
  have objects: "(if ?B \<noteq> [] then
       filter (\<lambda>r. fst r = ?pid) (object_detections (catalog w2)) = map (Pair ?pid) ?B \<and>
       (\<forall>cn. filter (\<lambda>r. os_photo_id r = ?pid \<and> os_class_name r = cn)
               (object_summary (catalog w2)) =
             (if cn \<in> class_name ` set ?B then [expected_summary ?pid ?B cn] else []))
     else object_detections (catalog w2) = object_detections (catalog w1) \<and>
          object_summary (catalog w2) = object_summary (catalog w1))"
  proof (cases "?B = []")
    case True
    with s have "d2 = d1" by simp
    with True fr1 fr3 show ?thesis by simp
  next
    case False
    with s have "add_object_detections e2 ?pid ?B d1 = (Inr (), d2)" by simp
    from add_object_detections_rows[OF this] False fr3 show ?thesis by simp
  qed
  have faces: "(if ?F \<noteq> [] then
       filter (\<lambda>r. fst r = ?pid) (face_detections (catalog w2)) = map (Pair ?pid) ?F \<and>
       filter (\<lambda>r. fs_photo_id r = ?pid) (face_summary (catalog w2)) =
         [\<lparr>fs_photo_id = ?pid, fs_total_faces = int (length ?F),
           fs_recognized_faces =
             int (length (filter (\<lambda>f. truthy_name (fd_recognized_name f)) ?F)),
           fs_unrecognized_faces =
             int (length ?F) -
             int (length (filter (\<lambda>f. truthy_name (fd_recognized_name f)) ?F))\<rparr>]
     else face_detections (catalog w2) = face_detections (catalog w1) \<and>
          face_summary (catalog w2) = face_summary (catalog w1))"
  proof (cases "?F = []")
    case True
    with f have "catalog w2 = d2" by simp
    with True fr1 fr2 show ?thesis by simp
  next
    case False
    with f have "add_face_detections e2 ?pid ?F d2 = (Inr (), catalog w2)" by simp
    from add_face_detections_rows[OF this] add_face_detections_summary[OF this] False
    show ?thesis by simp
  qed
  have empty: "\<forall>e photo_id d d'. add_object_detections e photo_id [] d = (Inr (), d') \<longrightarrow>
       filter (\<lambda>r. os_photo_id r = photo_id) (object_summary d') = [] \<and>
       filter (\<lambda>r. fst r = photo_id) (object_detections d') = []"
    using add_object_detections_empty by blast
  from same_photo_on_reprocessing[OF first second] objects faces empty show ?thesis by blast
qed

theorem reprocessing_replaces_summaries_witness:
  "\<exists>w2. process_single_image example_env_bird example_processor ''photos/a.jpg'' (1/4)
          world_after_A =
        (Inr \<lparr>res_photo_id = 1, res_file_path = ''photos/a.jpg'', res_detections_count = 1,
              res_face_detections_count = 1,
              res_detections = [\<lparr>class_name = ''bird'', class_id = 14, confidence = 1/2\<rparr>],
              res_face_detections = example_faces\<rparr>, w2) \<and>
        filter (\<lambda>r. os_photo_id r = 1 \<and> os_class_name r = ''bird'')
          (object_summary (catalog w2)) =
          [\<lparr>os_photo_id = 1, os_class_name = ''bird'', os_class_id = 14, os_total_count = 1,
            os_avg_confidence = 1/2, os_max_confidence = 1/2\<rparr>] \<and>
        filter (\<lambda>r. os_photo_id r = 1 \<and> os_class_name r = ''cat'')
          (object_summary (catalog w2)) = [] \<and>
        filter (\<lambda>r. fs_photo_id r = 1) (face_summary (catalog w2)) =
          [\<lparr>fs_photo_id = 1, fs_total_faces = 1, fs_recognized_faces = 1,
            fs_unrecognized_faces = 0\<rparr>]"
proof -
  let ?B = "[\<lparr>class_name = ''bird'', class_id = 14, confidence = 1/2\<rparr>]"
  from run_bird obtain w2 where
    second: "process_single_image example_env_bird example_processor ''photos/a.jpg'' (1/4)
          world_after_A =
        (Inr \<lparr>res_photo_id = 1, res_file_path = ''photos/a.jpg'', res_detections_count = 1,
              res_face_detections_count = 1, res_detections = ?B,
              res_face_detections = example_faces\<rparr>, w2)"
    by blast
  have ex: "expected_summary 1 ?B ''bird'' =
      \<lparr>os_photo_id = 1, os_class_name = ''bird'', os_class_id = 14, os_total_count = 1,
       os_avg_confidence = 1/2, os_max_confidence = 1/2\<rparr>"
    by (simp add: expected_summary_def)
  have fn: "example_faces \<noteq> []" "length example_faces = 1"
    "filter (\<lambda>f. truthy_name (fd_recognized_name f)) example_faces = example_faces"
    by (simp_all add: example_faces_def truthy_name_def)
  from reprocessing_replaces_summaries[OF run_A second]
  have rows: "\<forall>cn. filter (\<lambda>r. os_photo_id r = 1 \<and> os_class_name r = cn)
               (object_summary (catalog w2)) =
             (if cn \<in> class_name ` set ?B then [expected_summary 1 ?B cn] else [])"
    and faces: "filter (\<lambda>r. fs_photo_id r = 1) (face_summary (catalog w2)) =
          [\<lparr>fs_photo_id = 1, fs_total_faces = 1, fs_recognized_faces = 1,
            fs_unrecognized_faces = 0\<rparr>]"
    using fn by simp_all
  from rows have "filter (\<lambda>r. os_photo_id r = 1 \<and> os_class_name r = ''bird'')
          (object_summary (catalog w2)) = [expected_summary 1 ?B ''bird'']"
    and "filter (\<lambda>r. os_photo_id r = 1 \<and> os_class_name r = ''cat'')
          (object_summary (catalog w2)) = []"
    by simp_all
  with second faces ex show ?thesis by auto
qed

text \<open>
  The claim as it was stated fails: \<open>photos/a.jpg\<close> is processed with two cats, a dog
  and a face, and then again with a detector and a face library that find nothing. The
  second run returns no detections and no faces, and the summaries of the first run are
  still in the catalog.
\<close>

theorem reprocessing_with_nothing_keeps_summaries:
  "process_single_image example_env example_processor ''photos/a.jpg'' (1/4) empty_world =
     (Inr \<lparr>res_photo_id = 1, res_file_path = ''photos/a.jpg'', res_detections_count = 3,
           res_face_detections_count = 1, res_detections = example_detections,
           res_face_detections = example_faces\<rparr>, world_after_A) \<and>
   fst (process_single_image example_env_nothing example_processor ''photos/a.jpg'' (1/4)
          world_after_A) =
     Inr \<lparr>res_photo_id = 1, res_file_path = ''photos/a.jpg'', res_detections_count = 0,
          res_face_detections_count = 0, res_detections = [], res_face_detections = []\<rparr> \<and>
   object_summary (catalog (snd (process_single_image example_env_nothing example_processor
                                   ''photos/a.jpg'' (1/4) world_after_A))) =
     [\<lparr>os_photo_id = 1, os_class_name = ''cat'', os_class_id = 15, os_total_count = 2,
       os_avg_confidence = 4/5, os_max_confidence = 9/10\<rparr>,
      \<lparr>os_photo_id = 1, os_class_name = ''dog'', os_class_id = 16, os_total_count = 1,
       os_avg_confidence = 4/5, os_max_confidence = 4/5\<rparr>] \<and>
   face_summary (catalog (snd (process_single_image example_env_nothing example_processor
                                 ''photos/a.jpg'' (1/4) world_after_A))) =
     [\<lparr>fs_photo_id = 1, fs_total_faces = 1, fs_recognized_faces = 1,
       fs_unrecognized_faces = 0\<rparr>]"
  by (simp add: run_A run_nothing db_after_A_def)

section \<open>The face matcher\<close>

lemma argmin_from_spec:
  "argmin_from xs i bi b = k \<Longrightarrow>
   (k = bi \<and> (\<forall>x \<in> set xs. b \<le> x)) \<or>
   (\<exists>j < length xs. k = i + j \<and> xs ! j < b \<and> (\<forall>x \<in> set xs. xs ! j \<le> x) \<and>
      (\<forall>j' < j. xs ! j < xs ! j'))"
proof (induction xs i bi b arbitrary: k rule: argmin_from.induct)
  case (1 i bi b)
  then show ?case by simp
next
  case (2 x xs i bi b)
  show ?case
  proof (cases "x < b")
    case True
    with "2.prems" have k: "argmin_from xs (Suc i) i x = k" by simp
    from "2.IH"(1)[OF True k] show ?thesis
    proof
      assume a: "k = i \<and> (\<forall>y \<in> set xs. x \<le> y)"
      have "0 < length (x # xs) \<and> k = i + 0 \<and> (x # xs) ! 0 < b \<and>
            (\<forall>y \<in> set (x # xs). (x # xs) ! 0 \<le> y) \<and> (\<forall>j' < 0. (x # xs) ! 0 < (x # xs) ! j')"
        using a True by simp
      then show ?thesis by blast
    next
      assume "\<exists>j<length xs. k = Suc i + j \<and> xs ! j < x \<and> (\<forall>y\<in>set xs. xs ! j \<le> y) \<and>
               (\<forall>j'<j. xs ! j < xs ! j')"
      then obtain j where j: "j < length xs" "k = Suc i + j" "xs ! j < x"
        "\<forall>y\<in>set xs. xs ! j \<le> y" "\<forall>j'<j. xs ! j < xs ! j'" by blast
      have "Suc j < length (x # xs) \<and> k = i + Suc j \<and> (x # xs) ! Suc j < b \<and>
            (\<forall>y \<in> set (x # xs). (x # xs) ! Suc j \<le> y) \<and>
            (\<forall>j' < Suc j. (x # xs) ! Suc j < (x # xs) ! j')"
        using j True by (auto simp: less_Suc_eq_0_disj)
      then show ?thesis by blast
    qed
  next
    case False
    with "2.prems" have k: "argmin_from xs (Suc i) bi b = k" by simp
    from "2.IH"(2)[OF False k] show ?thesis
    proof
      assume "k = bi \<and> (\<forall>y \<in> set xs. b \<le> y)"
      with False show ?thesis by auto
    next
      assume "\<exists>j<length xs. k = Suc i + j \<and> xs ! j < b \<and> (\<forall>y\<in>set xs. xs ! j \<le> y) \<and>
               (\<forall>j'<j. xs ! j < xs ! j')"
      then obtain j where j: "j < length xs" "k = Suc i + j" "xs ! j < b"
        "\<forall>y\<in>set xs. xs ! j \<le> y" "\<forall>j'<j. xs ! j < xs ! j'" by blast
      have "Suc j < length (x # xs) \<and> k = i + Suc j \<and> (x # xs) ! Suc j < b \<and>
            (\<forall>y \<in> set (x # xs). (x # xs) ! Suc j \<le> y) \<and>
            (\<forall>j' < Suc j. (x # xs) ! Suc j < (x # xs) ! j')"
        using j False by (auto simp: less_Suc_eq_0_disj)
      then show ?thesis by blast
    qed
  qed
qed

lemma argmin_first_least:
  assumes "xs \<noteq> []"
  shows "\<exists>k < length xs. argmin xs = Inr k \<and> (\<forall>x \<in> set xs. xs ! k \<le> x) \<and>
           (\<forall>j < k. xs ! k < xs ! j)"
proof -
  from assms obtain x rest where xs: "xs = x # rest" by (cases xs) auto
  define k where "k = argmin_from rest 1 0 x"
  from argmin_from_spec[OF k_def[symmetric]]
  show ?thesis
  proof
    assume "k = 0 \<and> (\<forall>y \<in> set rest. x \<le> y)"
    then show ?thesis using xs k_def by (auto simp: argmin_def)
  next
    assume "\<exists>j<length rest. k = 1 + j \<and> rest ! j < x \<and> (\<forall>y\<in>set rest. rest ! j \<le> y) \<and>
               (\<forall>j'<j. rest ! j < rest ! j')"
    then obtain j where j: "j < length rest" "k = Suc j" "rest ! j < x"
        "\<forall>y\<in>set rest. rest ! j \<le> y" "\<forall>j'<j. rest ! j < rest ! j'" by auto
    have "Suc j < length xs \<and> argmin xs = Inr (Suc j) \<and> (\<forall>y \<in> set xs. xs ! Suc j \<le> y) \<and>
           (\<forall>j' < Suc j. xs ! Suc j < xs ! j')"
      using j xs k_def by (auto simp: argmin_def less_Suc_eq_0_disj)
    then show ?thesis by blast
  qed
qed


lemma find_filter: "find P (filter Q xs) = find (\<lambda>x. Q x \<and> P x) xs"
  by (induction xs) auto

lemma scored_zip:
  "length names = length encs \<Longrightarrow>
   map (\<lambda>(name, encoding). (name, distance e encoding q)) (zip names encs) =
   zip names (face_distance e encs q)"
  by (induction names encs rule: list_induct2) (auto simp: face_distance_def)

lemma snd_in_zip: "z \<in> set (zip xs ys) \<Longrightarrow> snd z \<in> set ys"
  by (cases z) (auto dest: set_zip_rightD)

lemma find_least:
  fixes zs :: "('a \<times> real) list"
  assumes kz: "k < length zs" and Qk: "Q (zs ! k)"
    and least: "\<forall>z \<in> set zs. snd (zs ! k) \<le> snd z"
    and first: "\<forall>j < k. snd (zs ! k) < snd (zs ! j)"
  shows "find (\<lambda>z. \<forall>z' \<in> set (filter Q zs). snd z \<le> snd z') (filter Q zs) = Some (zs ! k)"
proof -
  define C where "C = set (filter Q zs)"
  define R where "R = (\<lambda>z. Q z \<and> (\<forall>z' \<in> C. snd z \<le> snd z'))"
  have Csub: "C \<subseteq> set zs" by (auto simp: C_def)
  have inC: "zs ! k \<in> C" using kz Qk by (simp add: C_def)
  have Rk: "R (zs ! k)" using Qk least Csub by (auto simp: R_def)
  have notR: "\<not> R (zs ! j)" if "j < k" for j
  proof
    assume "R (zs ! j)"
    then have "snd (zs ! j) \<le> snd (zs ! k)" using inC by (simp add: R_def)
    moreover from that first have "snd (zs ! k) < snd (zs ! j)" by simp
    ultimately show False by simp
  qed
  have "find R zs = Some (zs ! k)"
    unfolding find_Some_iff using kz Rk notR by blast
  then show ?thesis by (simp add: find_filter R_def C_def)
qed

lemma match_spec_least:
  fixes ds :: "real list"
  assumes len: "length names = length ds"
    and k: "k < length ds" "ds ! k \<le> tol" "\<forall>x \<in> set ds. ds ! k \<le> x" "\<forall>j < k. ds ! k < ds ! j"
  shows "find (\<lambda>(name, x). \<forall>(name', y) \<in> set (filter (\<lambda>(name, x). x \<le> tol) (zip names ds)). x \<le> y)
           (filter (\<lambda>(name, x). x \<le> tol) (zip names ds)) = Some (names ! k, ds ! k)"
proof -
  let ?zs = "zip names ds"
  have kz: "k < length ?zs" using len k(1) by simp
  have zk: "?zs ! k = (names ! k, ds ! k)" using len k(1) by simp
  have Qk: "(\<lambda>z. snd z \<le> tol) (?zs ! k)" using zk k(2) by simp
  have least: "\<forall>z \<in> set ?zs. snd (?zs ! k) \<le> snd z"
  proof
    fix z assume "z \<in> set ?zs"
    then have "snd z \<in> set ds" by (rule snd_in_zip)
    with k(3) zk show "snd (?zs ! k) \<le> snd z" by simp
  qed
  have first: "\<forall>j < k. snd (?zs ! k) < snd (?zs ! j)"
  proof (intro allI impI)
    fix j assume "j < k"
    with k(1) len have "?zs ! j = (names ! j, ds ! j)" by simp
    with k(4) \<open>j < k\<close> zk show "snd (?zs ! k) < snd (?zs ! j)" by simp
  qed
  from find_least[of k ?zs "\<lambda>z. snd z \<le> tol", OF kz Qk least first] zk
  show ?thesis by (simp add: case_prod_unfold)
qed

lemma new_face_processor_lengths:
  "length (known_face_names (new_face_processor tol)) =
   length (known_face_encodings (new_face_processor tol))"
  by (simp add: new_face_processor_def)

lemma set_known_faces_lengths:
  "length (known_face_names (set_known_faces known_faces fp)) =
   length (known_face_encodings (set_known_faces known_faces fp))"
  by (simp add: set_known_faces_def)

text \<open>
  Claim C3. For every query encoding and every gallery (the two lists of the face
  processor have the same length: \<open>__init__\<close> and \<open>set_known_faces\<close> keep them so), the
  recognition of a face never raises and returns what the two-phase rule of the
  specification gives on the gallery in insertion order: \<open>(None, None)\<close> for an empty
  gallery or when no entry is within the tolerance, otherwise the name of the first
  entry of least distance among those within the tolerance, with one minus that
  distance.
\<close>

theorem recognize_two_phase:
  assumes len: "length (known_face_names fp) = length (known_face_encodings fp)"
  shows "recognize e fp query =
           Inr (match_spec e (zip (known_face_names fp) (known_face_encodings fp)) query
                  (tolerance fp))"
proof -
  let ?names = "known_face_names fp" and ?encs = "known_face_encodings fp"
  let ?tol = "tolerance fp"
  let ?ds = "face_distance e ?encs query"
  let ?cands = "filter (\<lambda>(name, x). x \<le> ?tol) (zip ?names ?ds)"
  have lds: "length ?ds = length ?encs" by (simp add: face_distance_def)
  have sc: "map (\<lambda>(name, encoding). (name, distance e encoding query)) (zip ?names ?encs) =
            zip ?names ?ds"
    by (rule scored_zip[OF len])
  have matches: "compare_faces e ?encs query ?tol = map (\<lambda>x. x \<le> ?tol) ?ds"
    by (simp add: compare_faces_def)
  show ?thesis
  proof (cases "?encs = []")
    case True
    then show ?thesis by (simp add: recognize_def match_spec_def)
  next
    case ne: False
    with len have gne: "zip ?names ?encs \<noteq> []" by (cases ?names; cases ?encs) auto
    show ?thesis
    proof (cases "True \<in> set (map (\<lambda>x. x \<le> ?tol) ?ds)")
      case False
      then have "\<forall>x \<in> set ?ds. \<not> x \<le> ?tol" by auto
      then have "?cands = []"
      proof -
        have "\<And>z. z \<in> set (zip ?names ?ds) \<Longrightarrow> \<not> snd z \<le> ?tol"
        proof -
          fix z assume "z \<in> set (zip ?names ?ds)"
          then have "snd z \<in> set ?ds" by (rule snd_in_zip)
          with \<open>\<forall>x \<in> set ?ds. \<not> x \<le> ?tol\<close> show "\<not> snd z \<le> ?tol" by blast
        qed
        then show ?thesis by (simp add: filter_empty_conv case_prod_unfold)
      qed
      with False ne show ?thesis
        by (simp add: recognize_def match_spec_def matches sc Let_def)
    next
      case True
      then obtain x where x: "x \<in> set ?ds" "x \<le> ?tol" by auto
      from ne lds have dne: "?ds \<noteq> []" by auto
      from argmin_first_least[OF dne] obtain k where
        k: "k < length ?ds" "argmin ?ds = Inr k" "\<forall>x \<in> set ?ds. ?ds ! k \<le> x"
           "\<forall>j < k. ?ds ! k < ?ds ! j" by blast
      from k(3) x have ktol: "?ds ! k \<le> ?tol" by force
      have len': "length ?names = length ?ds" using len lds by simp
      have f: "find (\<lambda>(name, x). \<forall>(name', y) \<in> set ?cands. x \<le> y) ?cands =
                 Some (?names ! k, ?ds ! k)"
        by (rule match_spec_least[OF len' k(1) ktol k(3) k(4)])
      have cne: "?cands \<noteq> []"
      proof
        assume "?cands = []"
        with f show False by simp
      qed
      have r: "recognize e fp query = Inr (Some (?names ! k), Some (1 - ?ds ! k))"
        using True ne k(1,2) ktol len'
        by (simp add: recognize_def matches Let_def getitem_def)
      have m: "match_spec e (zip ?names ?encs) query ?tol = (Some (?names ! k), Some (1 - ?ds ! k))"
        using gne cne f by (simp add: match_spec_def sc Let_def)
      from r m show ?thesis by simp
    qed
  qed
qed

theorem recognize_two_phase_witness:
  "recognize example_env example_face_processor [0] = Inr (Some ''bob'', Some (7/10)) \<and>
   recognize example_env (example_face_processor\<lparr>tolerance := 1/5\<rparr>) [0] = Inr (None, None)"
proof -
  have len: "length (known_face_names example_face_processor) =
             length (known_face_encodings example_face_processor)"
    by (simp add: example_face_processor_def set_known_faces_def)
  have len': "length (known_face_names (example_face_processor\<lparr>tolerance := 1/5\<rparr>)) =
              length (known_face_encodings (example_face_processor\<lparr>tolerance := 1/5\<rparr>))"
    using len by simp
  have m1: "match_spec example_env
              (zip (known_face_names example_face_processor)
                   (known_face_encodings example_face_processor)) [0]
              (tolerance example_face_processor) = (Some ''bob'', Some (7/10))"
    by (simp add: match_spec_def example_face_processor_def set_known_faces_def
        new_face_processor_def example_known_faces_def example_env_def l1_distance_def)
  have m2: "match_spec example_env
              (zip (known_face_names (example_face_processor\<lparr>tolerance := 1/5\<rparr>))
                   (known_face_encodings (example_face_processor\<lparr>tolerance := 1/5\<rparr>))) [0]
              (tolerance (example_face_processor\<lparr>tolerance := 1/5\<rparr>)) = (None, None)"
    by (simp add: match_spec_def example_face_processor_def set_known_faces_def
        new_face_processor_def example_known_faces_def example_env_def l1_distance_def)
  from recognize_two_phase[OF len, of example_env "[0]"]
       recognize_two_phase[OF len', of example_env "[0]"] m1 m2
  show ?thesis by simp
qed

section \<open>The validation of EXIF timestamps\<close>

lemma validate_sentinel: "validate_and_parse_datetime ''0000:00:00 00:00:00'' = None"
  by code_simp

lemma validate_normalizes:
  "validate_and_parse_datetime ''2023:05:01 10:00:00'' = Some ''2023-05-01T10:00:00''"
  by code_simp

lemma validate_out_of_range: "validate_and_parse_datetime ''1899:12:31 00:00:01'' = None"
  by code_simp

lemma midnight_not_zeroed: "zeroed ''2023:05:01 00:00:00'' = False"
  by code_simp

text \<open>
  Claim C4. The claim has every timestamp with the time \<open>00:00:00\<close> rejected. The
  function tests \<open>time_part == '00:00:00'\<close> only when the string contains \<open>0000\<close> or
  \<open>:00:00:00\<close>, and a timestamp in the format has a space, not a colon, before its
  time: midnight of 1 May 2023 passes the test, is parsed, lies in the range and comes
  back normalized.
\<close>

theorem validate_and_parse_datetime_midnight:
  "validate_and_parse_datetime ''2023:05:01 00:00:00'' = Some ''2023-05-01T00:00:00''"
  by code_simp

section \<open>EXIF rows on ingestion\<close>

lemma add_photo_exif:
  assumes "add_photo e file_path yolo_model d = (Inr photo_id, d')"
  shows "exif_data d' =
           (case extract_exif_data e file_path of
              None \<Rightarrow> exif_data d
            | Some exif \<Rightarrow>
                filter (\<lambda>r. ex_photo_id r \<noteq> photo_id) (exif_data d)
                @ [\<lparr>ex_photo_id = photo_id, ex_fields = exif\<rparr>])"
  using assms
  by (auto simp: add_photo_def Let_def split: sum.splits option.splits)

text \<open>
  Claim C5, as the code has it. When \<open>add_photo\<close> succeeds and the extraction gave a
  dictionary that is not empty, the photo has exactly one EXIF row afterwards, the one
  just extracted. When the extraction gave nothing, the table \<open>exif_data\<close> is as it was:
  the DELETE stands under the same condition as the INSERT.
\<close>

theorem add_photo_replaces_exif:
  "add_photo e file_path yolo_model d = (Inr photo_id, d') \<Longrightarrow>
     (case extract_exif_data e file_path of
        Some exif \<Rightarrow>
          filter (\<lambda>r. ex_photo_id r = photo_id) (exif_data d') =
            [\<lparr>ex_photo_id = photo_id, ex_fields = exif\<rparr>]
      | None \<Rightarrow> exif_data d' = exif_data d)"
proof -
  assume a: "add_photo e file_path yolo_model d = (Inr photo_id, d')"
  have old: "filter (\<lambda>r. ex_photo_id r = photo_id)
               (filter (\<lambda>r. ex_photo_id r \<noteq> photo_id) (exif_data d)) = []"
    by (auto simp: filter_empty_conv)
  show ?thesis
    using add_photo_exif[OF a] old by (auto split: option.splits)
qed

lemma example_add_photo_with_exif:
  "fst (add_photo example_env_with_exif ''photos/a.jpg'' (Some ''yolov8n.pt'')
          example_db_with_exif) = Inr 1"
  by (simp add: add_photo_def example_env_with_exif_def example_env_def
      example_db_with_exif_def example_db_def example_photo_def Let_def)

lemma example_extract_exif:
  "extract_exif_data example_env_with_exif ''photos/a.jpg'' =
     Some \<lparr>camera_make = Some ''Nikon'', camera_model = Some ''D750'', software = None,
           date_time_original = Some ''2023-05-01T10:00:00'', exposure_time = Some (1/100),
           f_number = Some 8, iso_speed = Some 100, focal_length = Some 35,
           gps_latitude = None, gps_longitude = None, gps_altitude = None\<rparr>"
  by (simp add: extract_exif_data_def example_env_with_exif_def example_env_def
      example_raw_exif_def validate_normalizes)

theorem add_photo_replaces_exif_witness:
  "fst (add_photo example_env_with_exif ''photos/a.jpg'' (Some ''yolov8n.pt'')
          example_db_with_exif) = Inr 1 \<and>
   filter (\<lambda>r. ex_photo_id r = 1)
     (exif_data (snd (add_photo example_env_with_exif ''photos/a.jpg'' (Some ''yolov8n.pt'')
                        example_db_with_exif))) =
     [\<lparr>ex_photo_id = 1,
       ex_fields =
         \<lparr>camera_make = Some ''Nikon'', camera_model = Some ''D750'', software = None,
          date_time_original = Some ''2023-05-01T10:00:00'', exposure_time = Some (1/100),
          f_number = Some 8, iso_speed = Some 100, focal_length = Some 35,
          gps_latitude = None, gps_longitude = None, gps_altitude = None\<rparr>\<rparr>]"
proof -
  have a: "add_photo example_env_with_exif ''photos/a.jpg'' (Some ''yolov8n.pt'')
             example_db_with_exif =
           (Inr 1, snd (add_photo example_env_with_exif ''photos/a.jpg'' (Some ''yolov8n.pt'')
                          example_db_with_exif))"
    using example_add_photo_with_exif by (metis prod.collapse)
  from add_photo_replaces_exif[OF a] example_extract_exif example_add_photo_with_exif
  show ?thesis by simp
qed

text \<open>
  The claim as it was stated fails: the image of a photo that has an EXIF row is
  ingested again and the extraction finds nothing; the row of the earlier ingestion is
  still there.
\<close>

theorem add_photo_keeps_stale_exif:
  "extract_exif_data example_env ''photos/a.jpg'' = None \<and>
   fst (add_photo example_env ''photos/a.jpg'' (Some ''yolov8n.pt'') example_db_with_exif) =
     Inr 1 \<and>
   exif_data (snd (add_photo example_env ''photos/a.jpg'' (Some ''yolov8n.pt'')
                     example_db_with_exif)) =
     [\<lparr>ex_photo_id = 1, ex_fields = example_exif\<rparr>]"
  by (simp add: add_photo_def extract_exif_data_def example_env_def
      example_db_with_exif_def example_db_def example_photo_def Let_def)

section \<open>Failures in single-file processing\<close>

lemma face_step_swallowed:
  "face_step_raises e fp image_path \<Longrightarrow> detect_faces_in_image e fp image_path = []"
  by (auto simp: face_step_raises_def detect_faces_in_image_def split: sum.splits)

lemma psi_add_photo_fails:
  "add_photo e p (Some (model_name yp)) (catalog w) = (Inl err, d1) \<Longrightarrow>
   fst (process_single_image e yp p thr w) = Inl err"
  by (simp add: process_single_image_def Let_def)

lemma psi_detector_fails:
  "add_photo e p (Some (model_name yp)) (catalog w) = (Inr photo_id, d1) \<Longrightarrow>
   yolo e p thr = Inl err \<Longrightarrow>
   fst (process_single_image e yp p thr w) = Inl err"
  by (simp add: process_single_image_def Let_def)

lemma psi_extraction_fails:
  "add_photo e p (Some (model_name yp)) (catalog w) = (Inr photo_id, d1) \<Longrightarrow>
   yolo e p thr = Inr results \<Longrightarrow>
   extract_detections (model_names e) results = Inl err \<Longrightarrow>
   fst (process_single_image e yp p thr w) = Inl err"
  by (simp add: process_single_image_def Let_def)

lemma psi_add_object_detections_fails:
  "add_photo e p (Some (model_name yp)) (catalog w) = (Inr photo_id, d1) \<Longrightarrow>
   yolo e p thr = Inr results \<Longrightarrow>
   extract_detections (model_names e) results = Inr detections \<Longrightarrow>
   detections \<noteq> [] \<Longrightarrow>
   add_object_detections e photo_id detections d1 = (Inl err, d2) \<Longrightarrow>
   fst (process_single_image e yp p thr w) = Inl err"
  by (simp add: process_single_image_def Let_def)

lemma psi_add_face_detections_fails:
  "add_photo e p (Some (model_name yp)) (catalog w) = (Inr photo_id, d1) \<Longrightarrow>
   yolo e p thr = Inr results \<Longrightarrow>
   extract_detections (model_names e) results = Inr detections \<Longrightarrow>
   (if detections \<noteq> [] then add_object_detections e photo_id detections d1 else (Inr (), d1))
     = (Inr (), d2) \<Longrightarrow>
   detect_faces_in_image e (face_processor yp) p \<noteq> [] \<Longrightarrow>
   add_face_detections e photo_id (detect_faces_in_image e (face_processor yp) p) d2 = (Inl err, d3) \<Longrightarrow>
   fst (process_single_image e yp p thr w) = Inl err"
  by (cases "detections = []") (simp_all add: process_single_image_def Let_def)

lemma psi_no_faces:
  "add_photo e p (Some (model_name yp)) (catalog w) = (Inr photo_id, d1) \<Longrightarrow>
   yolo e p thr = Inr results \<Longrightarrow>
   extract_detections (model_names e) results = Inr detections \<Longrightarrow>
   (if detections \<noteq> [] then add_object_detections e photo_id detections d1 else (Inr (), d1))
     = (Inr (), d2) \<Longrightarrow>
   detect_faces_in_image e (face_processor yp) p = [] \<Longrightarrow>
   fst (process_single_image e yp p thr w) =
     Inr \<lparr>res_photo_id = photo_id, res_file_path = p,
          res_detections_count = length detections, res_face_detections_count = 0,
          res_detections = detections, res_face_detections = []\<rparr> \<and>
   catalog (snd (process_single_image e yp p thr w)) = d2"
  by (cases "detections = []") (simp_all add: process_single_image_def Let_def)

lemma face_fails_add_photo:
  "add_photo example_env_face_fails ''photos/a.jpg'' (Some (model_name example_processor))
     (catalog example_world) = (Inr 1, example_db)"
  by (simp add: add_photo_def extract_exif_data_def example_env_face_fails_def
      example_env_def example_world_def example_processor_def example_db_def
      example_photo_def basename_def Let_def)

lemma face_fails_yolo:
  "yolo example_env_face_fails ''photos/a.jpg'' (1/4) = Inr [Some example_boxes]"
  by (simp add: example_env_face_fails_def example_env_def)

lemma face_fails_extract:
  "extract_detections (model_names example_env_face_fails) [Some example_boxes] =
     Inr example_detections"
  using example_extract_detections
  by (simp add: example_env_face_fails_def example_env_def)

lemma face_fails_store:
  "(if example_detections \<noteq> []
    then add_object_detections example_env_face_fails 1 example_detections example_db
    else (Inr (), example_db)) =
   (Inr (), snd (add_object_detections example_env_face_fails 1 example_detections example_db))"
proof -
  have "fst (add_object_detections example_env_face_fails 1 example_detections example_db) =
          Inr ()"
    by (rule add_object_detections_succeeds)
       (simp_all add: example_env_face_fails_def example_env_def example_db_def
          example_photo_def)
  moreover have "example_detections \<noteq> []" by (simp add: example_detections_def)
  ultimately show ?thesis by (simp add: prod_eq_iff)
qed

lemma face_fails_raises:
  "face_step_raises example_env_face_fails (face_processor example_processor) ''photos/a.jpg''"
  by (simp add: face_step_raises_def example_env_face_fails_def)

text \<open>
  Claim C6, as the code has it. In \<open>process_single_image\<close> a failure of \<open>add_photo\<close>, of
  the detector, of the reading of its boxes, of \<open>add_object_detections\<close> or of
  \<open>add_face_detections\<close> is the error the call raises. A failure inside the face step
  is not: \<open>detect_faces_in_image\<close> catches it and returns no faces, and the call
  returns its result record, with an empty list of faces, and writes no face rows.
\<close>

theorem process_single_image_failures:
  "(\<forall>err d1. add_photo e p (Some (model_name yp)) (catalog w) = (Inl err, d1) \<longrightarrow>
      fst (process_single_image e yp p thr w) = Inl err) \<and>
   (\<forall>photo_id d1. add_photo e p (Some (model_name yp)) (catalog w) = (Inr photo_id, d1) \<longrightarrow>
      (\<forall>err. yolo e p thr = Inl err \<longrightarrow> fst (process_single_image e yp p thr w) = Inl err) \<and>
      (\<forall>results. yolo e p thr = Inr results \<longrightarrow>
         (\<forall>err. extract_detections (model_names e) results = Inl err \<longrightarrow>
            fst (process_single_image e yp p thr w) = Inl err) \<and>
         (\<forall>detections. extract_detections (model_names e) results = Inr detections \<longrightarrow>
            (\<forall>err d2. detections \<noteq> [] \<and>
               add_object_detections e photo_id detections d1 = (Inl err, d2) \<longrightarrow>
               fst (process_single_image e yp p thr w) = Inl err) \<and>
            (\<forall>d2. (if detections \<noteq> [] then add_object_detections e photo_id detections d1
                   else (Inr (), d1)) = (Inr (), d2) \<longrightarrow>
               (\<forall>err d3. detect_faces_in_image e (face_processor yp) p \<noteq> [] \<and>
                  add_face_detections e photo_id
                    (detect_faces_in_image e (face_processor yp) p) d2 = (Inl err, d3) \<longrightarrow>
                  fst (process_single_image e yp p thr w) = Inl err) \<and>
               (face_step_raises e (face_processor yp) p \<longrightarrow>
                  fst (process_single_image e yp p thr w) =
                    Inr \<lparr>res_photo_id = photo_id, res_file_path = p,
                         res_detections_count = length detections,
                         res_face_detections_count = 0,
                         res_detections = detections, res_face_detections = []\<rparr> \<and>
                  catalog (snd (process_single_image e yp p thr w)) = d2)))))"
proof (intro conjI allI impI)
  fix err d1
  assume "add_photo e p (Some (model_name yp)) (catalog w) = (Inl err, d1)"
  then show "fst (process_single_image e yp p thr w) = Inl err"
    by (rule psi_add_photo_fails)
next
  fix photo_id d1 err
  assume "add_photo e p (Some (model_name yp)) (catalog w) = (Inr photo_id, d1)"
    and "yolo e p thr = Inl err"
  then show "fst (process_single_image e yp p thr w) = Inl err"
    by (rule psi_detector_fails)
next
  fix photo_id d1 results err
  assume "add_photo e p (Some (model_name yp)) (catalog w) = (Inr photo_id, d1)"
    and "yolo e p thr = Inr results"
    and "extract_detections (model_names e) results = Inl err"
  then show "fst (process_single_image e yp p thr w) = Inl err"
    by (rule psi_extraction_fails)
next
  fix photo_id d1 results detections err d2
  assume "add_photo e p (Some (model_name yp)) (catalog w) = (Inr photo_id, d1)"
    and "yolo e p thr = Inr results"
    and "extract_detections (model_names e) results = Inr detections"
    and "detections \<noteq> [] \<and> add_object_detections e photo_id detections d1 = (Inl err, d2)"
  then show "fst (process_single_image e yp p thr w) = Inl err"
    using psi_add_object_detections_fails by blast
next
  fix photo_id d1 results detections d2 err d3
  assume "add_photo e p (Some (model_name yp)) (catalog w) = (Inr photo_id, d1)"
    and "yolo e p thr = Inr results"
    and "extract_detections (model_names e) results = Inr detections"
    and "(if detections \<noteq> [] then add_object_detections e photo_id detections d1
          else (Inr (), d1)) = (Inr (), d2)"
    and "detect_faces_in_image e (face_processor yp) p \<noteq> [] \<and>
         add_face_detections e photo_id
           (detect_faces_in_image e (face_processor yp) p) d2 = (Inl err, d3)"
  then show "fst (process_single_image e yp p thr w) = Inl err"
    using psi_add_face_detections_fails by blast
next
  fix photo_id d1 results detections d2
  assume a: "add_photo e p (Some (model_name yp)) (catalog w) = (Inr photo_id, d1)"
    "yolo e p thr = Inr results"
    "extract_detections (model_names e) results = Inr detections"
    "(if detections \<noteq> [] then add_object_detections e photo_id detections d1
          else (Inr (), d1)) = (Inr (), d2)"
    and f: "face_step_raises e (face_processor yp) p"
  from psi_no_faces[OF a face_step_swallowed[OF f]]
  show "fst (process_single_image e yp p thr w) =
          Inr \<lparr>res_photo_id = photo_id, res_file_path = p,
               res_detections_count = length detections,
               res_face_detections_count = 0,
               res_detections = detections, res_face_detections = []\<rparr>"
    and "catalog (snd (process_single_image e yp p thr w)) = d2"
    by simp_all
qed

theorem process_single_image_failures_witness:
  "fst (process_single_image example_env_detector_fails example_processor ''photos/a.jpg''
          (1/4) example_world) = Inl (DetectorError ''out of memory'') \<and>
   face_step_raises example_env_face_fails (face_processor example_processor) ''photos/a.jpg'' \<and>
   fst (process_single_image example_env_face_fails example_processor ''photos/a.jpg''
          (1/4) example_world) =
     Inr \<lparr>res_photo_id = 1, res_file_path = ''photos/a.jpg'',
          res_detections_count = 3, res_face_detections_count = 0,
          res_detections = example_detections, res_face_detections = []\<rparr>"
proof -
  let ?ed = example_env_detector_fails and ?ef = example_env_face_fails
  have p1: "add_photo ?ed ''photos/a.jpg'' (Some (model_name example_processor))
              (catalog example_world) = (Inr 1, example_db)"
    by (simp add: add_photo_def extract_exif_data_def example_env_detector_fails_def
        example_env_def example_world_def example_processor_def example_db_def
        example_photo_def basename_def Let_def)
  have y1: "yolo ?ed ''photos/a.jpg'' (1/4) = Inl (DetectorError ''out of memory'')"
    by (simp add: example_env_detector_fails_def)
  from process_single_image_failures[of ?ed "''photos/a.jpg''" example_processor example_world "1/4"]
    p1 y1
  have r1: "fst (process_single_image ?ed example_processor ''photos/a.jpg'' (1/4) example_world)
              = Inl (DetectorError ''out of memory'')"
    by blast
  from process_single_image_failures[of ?ef "''photos/a.jpg''" example_processor example_world "1/4"]
    face_fails_add_photo face_fails_yolo face_fails_extract face_fails_store face_fails_raises
  have r2: "fst (process_single_image ?ef example_processor ''photos/a.jpg'' (1/4) example_world) =
     Inr \<lparr>res_photo_id = 1, res_file_path = ''photos/a.jpg'',
          res_detections_count = length example_detections, res_face_detections_count = 0,
          res_detections = example_detections, res_face_detections = []\<rparr>"
    by blast
  have "length example_detections = 3" by (simp add: example_detections_def)
  with r1 r2 face_fails_raises show ?thesis by simp
qed

text \<open>
  The claim as it was stated fails: the face library cannot load the image, and the
  call returns a result.
\<close>

theorem face_failure_is_swallowed:
  "load_image_file example_env_face_fails ''photos/a.jpg'' =
     Inl (FaceLibraryError ''cannot identify image file'') \<and>
   fst (process_single_image example_env_face_fails example_processor ''photos/a.jpg''
          (1/4) example_world) =
     Inr \<lparr>res_photo_id = 1, res_file_path = ''photos/a.jpg'',
          res_detections_count = 3, res_face_detections_count = 0,
          res_detections = example_detections, res_face_detections = []\<rparr>"
proof -
  have l: "load_image_file example_env_face_fails ''photos/a.jpg'' =
             Inl (FaceLibraryError ''cannot identify image file'')"
    by (simp add: example_env_face_fails_def)
  have n: "length example_detections = 3" by (simp add: example_detections_def)
  from psi_no_faces[OF face_fails_add_photo face_fails_yolo face_fails_extract face_fails_store
      face_step_swallowed[OF face_fails_raises]] l n
  show ?thesis by simp
qed

section \<open>The directory crawl\<close>





section \<open>Skipping what has been processed\<close>

text \<open>
  Claim C8. In a batch without \<open>force_reprocess\<close>, take a path whose photo is in the catalog
  with a \<open>processed_at\<close> when the batch starts, and for which the query of
  \<open>_is_image_already_processed\<close> answers. Then every result of the batch for that path is
  the skipped record, the path has such a result when the crawl enumerates it, and
  nothing the batch invokes is invoked for that path: neither \<open>process_single_image\<close>
  nor the detector nor the face processor.
\<close>

theorem already_processed_is_skipped:
  assumes "\<not> force_reprocess"
    and "db_fault e (Call_is_image_already_processed p) = None"
    and "photo_of (catalog w) p = Some row"
    and "ph_processed_at row \<noteq> None"
  shows "(\<forall>r \<in> set (fst (process_directory e yp dir thr exts force_reprocess w)).
            result_file_path r = p \<longrightarrow> r = Skipped p \<and> result_status r = ''skipped'') \<and>
         (p \<in> set (find_image_files e dir exts) \<longrightarrow>
            Skipped p \<in> set (fst (process_directory e yp dir thr exts force_reprocess w))) \<and>
         (\<exists>new. invocations (snd (process_directory e yp dir thr exts force_reprocess w)) =
                  invocations w @ new \<and>
                (\<forall>i \<in> set new. invocation_path i \<noteq> p))"
proof -
  let ?files = "find_image_files e dir exts"
  let ?results = "fst (process_files e yp thr force_reprocess ?files w)"
  from assms(3,4) have pin: "processed_in (catalog w) p" by (simp add: processed_in_def)
  from skip_batch[OF assms(1,2) pin, of yp thr ?files]
  have all: "\<forall>r \<in> set ?results. result_file_path r = p \<longrightarrow> r = Skipped p"
    and inv: "\<exists>new. invocations (snd (process_files e yp thr force_reprocess ?files w)) =
                 invocations w @ new \<and> (\<forall>i \<in> set new. invocation_path i \<noteq> p)"
    by blast+
  have mem: "Skipped p \<in> set ?results" if "p \<in> set ?files"
  proof -
    from that have "p \<in> set (map result_file_path ?results)"
      by (simp add: process_files_paths)
    then obtain r where "r \<in> set ?results" "result_file_path r = p" by auto
    with all show ?thesis by auto
  qed
  have all': "\<forall>r \<in> set ?results.
      result_file_path r = p \<longrightarrow> r = Skipped p \<and> result_status r = ''skipped''"
  proof (intro ballI impI)
    fix r assume "r \<in> set ?results" "result_file_path r = p"
    with all have "r = Skipped p" by blast
    then show "r = Skipped p \<and> result_status r = ''skipped''" by simp
  qed
  from all' mem inv show ?thesis by (simp add: process_directory_def)
qed

theorem already_processed_is_skipped_witness:
  "''photos/a.jpg'' \<in> set (find_image_files example_env ''photos'' None) \<and>
   Skipped ''photos/a.jpg'' \<in>
     set (fst (process_directory example_env example_processor ''photos'' (1/4) None False
                 example_world)) \<and>
   result_status (Skipped ''photos/a.jpg'') = ''skipped''"
proof -
  have g: "glob example_env = posix_glob example_files" by (simp add: example_env_def)
  have m: "''photos/a.jpg'' \<in> set (find_image_files example_env ''photos'' None)"
    by (simp add: example_crawl[OF g])
  have f: "db_fault example_env (Call_is_image_already_processed ''photos/a.jpg'') = None"
    by (simp add: example_env_def)
  have r: "photo_of (catalog example_world) ''photos/a.jpg'' = Some example_photo"
    by (simp add: photo_of_def example_world_def example_db_def example_photo_def)
  have t: "ph_processed_at example_photo \<noteq> None" by (simp add: example_photo_def)
  have nf: "\<not> False" by simp
  from already_processed_is_skipped[where dir = "''photos''" and exts = None
      and yp = example_processor and thr = "1/4", OF nf f r t] m
  show ?thesis by simp
qed

section \<open>Failures in a batch\<close>




section \<open>Face detection\<close>

lemma recognize_faces_confidence:
  "recognize_faces e fp pairs = Inr faces \<Longrightarrow> \<forall>f \<in> set faces. fd_confidence f = 1"
proof (induction pairs arbitrary: faces)
  case Nil
  then show ?case by simp
next
  case (Cons pair pairs)
  obtain face_location encoding where pair: "pair = (face_location, encoding)"
    by (cases pair)
  from Cons.prems pair obtain name name_confidence rest where
    rest: "recognize_faces e fp pairs = Inr rest"
    and faces: "faces = \<lparr>fd_face_encoding = encoding,
                     fd_location_top = fst face_location,
                     fd_location_right = fst (snd face_location),
                     fd_location_bottom = fst (snd (snd face_location)),
                     fd_location_left = snd (snd (snd face_location)),
                     fd_confidence = 1,
                     fd_recognized_name = name,
                     fd_recognized_confidence = name_confidence\<rparr> # rest"
    by (auto split: sum.splits prod.splits)
  from Cons.IH[OF rest] faces show ?case by simp
qed

lemma detect_faces_confidence:
  "\<forall>f \<in> set (detect_faces_in_image e fp image_path). fd_confidence f = 1"
  by (auto simp: detect_faces_in_image_def split: sum.splits
      dest: recognize_faces_confidence[OF sym])

text \<open>
  Claim C10. Every face record \<open>detect_faces_in_image\<close> returns has the detection
  confidence 1, whatever the image, the face library and the gallery; and when
  \<open>add_face_detections\<close> stores the faces of an image, every row of \<open>face_detections\<close> of
  that photo has the confidence 1.
\<close>

theorem face_detection_confidence_constant:
  "(\<forall>f \<in> set (detect_faces_in_image e fp image_path). fd_confidence f = 1) \<and>
   (\<forall>photo_id d d'.
      add_face_detections e photo_id (detect_faces_in_image e fp image_path) d = (Inr (), d')
      \<longrightarrow> (\<forall>r \<in> set (face_detections d'). fst r = photo_id \<longrightarrow> fd_confidence (snd r) = 1))"
proof (intro conjI allI impI ballI)
  fix f assume "f \<in> set (detect_faces_in_image e fp image_path)"
  then show "fd_confidence f = 1" using detect_faces_confidence by blast
next
  fix photo_id d d' r
  assume a: "add_face_detections e photo_id (detect_faces_in_image e fp image_path) d = (Inr (), d')"
    and r: "r \<in> set (face_detections d')" and p: "fst r = photo_id"
  from r p have "r \<in> set (filter (\<lambda>r. fst r = photo_id) (face_detections d'))" by simp
  with add_face_detections_rows[OF a]
  have "r \<in> set (map (Pair photo_id) (detect_faces_in_image e fp image_path))" by simp
  then show "fd_confidence (snd r) = 1" using detect_faces_confidence by auto
qed

theorem face_detection_confidence_constant_witness:
  "detect_faces_in_image example_env example_face_processor ''photos/a.jpg'' \<noteq> [] \<and>
   fd_confidence (hd (detect_faces_in_image example_env example_face_processor ''photos/a.jpg'')) = 1"
proof -
  have ne: "detect_faces_in_image example_env example_face_processor ''photos/a.jpg'' \<noteq> []"
    by (simp add: example_detect_faces)
  then have "hd (detect_faces_in_image example_env example_face_processor ''photos/a.jpg'')
     \<in> set (detect_faces_in_image example_env example_face_processor ''photos/a.jpg'')"
    by (rule hd_in_set)
  with face_detection_confidence_constant[of example_env example_face_processor "''photos/a.jpg''"] ne
  show ?thesis by blast
qed

end
